theory Spec2Isabelle
  imports Complex_Main "HOL-Library.AList"
begin

section \<open>LX Thermals: sensor acquisition and aggregation (thermals.py)\<close>

text \<open>
  The program polls files of the Linux hardware-monitoring tree once per timer tick and keeps
  a running minimum and maximum per metric in module-level globals.

  Conventions of the embedding:
  \<^item> Python \<open>str\<close> is \<open>string\<close>; the text is taken to be ASCII (a character above 127 is an
    ordinary character: not white space, not a line break, without case).
  \<^item> Python \<open>int\<close> is \<open>int\<close>. A Python \<open>float\<close> obtained from \<open>int / 1000\<close> is the exact
    quotient in \<open>real\<close>: rounding and the overflow of the float format are not modelled.
  \<^item> A raised exception is \<open>Inl\<close> of a sum; a function without \<open>try\<close> propagates it.
  \<^item> Of the file system only what the program reads is kept: a directory is the list of its
    regular files (name, content) in the order the operating system enumerates them, and a
    directory that does not exist or cannot be listed is \<open>None\<close>. A file that is listed can be
    read: an error of the operating system on a single file is not modelled.
\<close>

subsection \<open>Python string primitives\<close>

datatype py_error = ValueError | IndexError | OSError

text \<open>\<open>str.isspace\<close> on ASCII: TAB, LF, VT, FF, CR, FS, GS, RS, US and the space.\<close>

definition py_isspace :: "char \<Rightarrow> bool" where
  "py_isspace c \<longleftrightarrow> c \<in> set [CHR 0x09, CHR 0x0A, CHR 0x0B, CHR 0x0C, CHR 0x0D,
                              CHR 0x1C, CHR 0x1D, CHR 0x1E, CHR 0x1F, CHR 0x20]"

text \<open>\<open>s.strip()\<close>\<close>

definition py_strip :: "string \<Rightarrow> string" where
  "py_strip s = rev (dropWhile py_isspace (rev (dropWhile py_isspace s)))"

text \<open>\<open>s.lower()\<close>: the letters A to Z move to a to z.\<close>

definition py_lower_char :: "char \<Rightarrow> char" where
  "py_lower_char c =
     (case map_of (zip ''ABCDEFGHIJKLMNOPQRSTUVWXYZ'' ''abcdefghijklmnopqrstuvwxyz'') c of
        None \<Rightarrow> c
      | Some l \<Rightarrow> l)"

definition py_lower :: "string \<Rightarrow> string" where
  "py_lower s = map py_lower_char s"

text \<open>\<open>s.startswith(p)\<close>\<close>

definition startswith :: "string \<Rightarrow> string \<Rightarrow> bool" where
  "startswith s p \<longleftrightarrow> take (length p) s = p"

text \<open>\<open>s.endswith(p)\<close>\<close>

definition endswith :: "string \<Rightarrow> string \<Rightarrow> bool" where
  "endswith s p \<longleftrightarrow> length p \<le> length s \<and> drop (length s - length p) s = p"

text \<open>
  \<open>s.splitlines()\<close>: the ASCII line boundaries are LF, VT, FF, CR, FS, GS and RS; CR LF is
  one boundary; a final boundary opens no further line.
\<close>

definition py_linebreak :: "char \<Rightarrow> bool" where
  "py_linebreak c \<longleftrightarrow> c \<in> set [CHR 0x0A, CHR 0x0B, CHR 0x0C, CHR 0x0D, CHR 0x1C, CHR 0x1D, CHR 0x1E]"

fun splitlines_from :: "string \<Rightarrow> string \<Rightarrow> string list" where
  "splitlines_from cur [] = (if cur = [] then [] else [cur])"
| "splitlines_from cur [c] = (if py_linebreak c then [cur] else [cur @ [c]])"
| "splitlines_from cur (c # d # cs) =
     (if c = CHR 0x0D \<and> d = CHR 0x0A then cur # splitlines_from [] cs
      else if py_linebreak c then cur # splitlines_from [] (d # cs)
      else splitlines_from (cur @ [c]) (d # cs))"

definition py_splitlines :: "string \<Rightarrow> string list" where
  "py_splitlines s = splitlines_from [] s"

text \<open>
  \<open>s.split(maxsplit=1)\<close>: leading white space is dropped; the first field runs to the next
  white space; what follows the white space after it, if anything, is the second field, with
  its trailing white space kept.
\<close>

definition py_split1 :: "string \<Rightarrow> string list" where
  "py_split1 s =
     (let s1 = dropWhile py_isspace s in
      if s1 = [] then []
      else
        let tok = takeWhile (\<lambda>c. \<not> py_isspace c) s1;
            rest = dropWhile py_isspace (dropWhile (\<lambda>c. \<not> py_isspace c) s1)
        in if rest = [] then [tok] else [tok, rest])"

text \<open>\<open>s.split(sep, 1)\<close> for a separator of one character.\<close>

definition py_split_sep1 :: "char \<Rightarrow> string \<Rightarrow> string list" where
  "py_split_sep1 sep s =
     (if sep \<in> set s
      then [takeWhile (\<lambda>c. c \<noteq> sep) s, tl (dropWhile (\<lambda>c. c \<noteq> sep) s)]
      else [s])"

text \<open>
  \<open>s.replace(old, new)\<close>: every non-overlapping occurrence, from the left. With an empty
  \<open>old\<close> Python puts \<open>new\<close> before every character and at the end.
\<close>

function py_replace :: "string \<Rightarrow> string \<Rightarrow> string \<Rightarrow> string" where
  "py_replace old new s =
     (if old = [] then new @ concat (map (\<lambda>c. c # new) s)
      else if s = [] then []
      else if take (length old) s = old then new @ py_replace old new (drop (length old) s)
      else hd s # py_replace old new (tl s))"
  by pat_completeness auto
termination
  by (relation "measure (\<lambda>(old, new, s). length s)") auto

declare py_replace.simps [simp del]

text \<open>\<open>xs[i]\<close> for an index that is not negative.\<close>

definition py_index :: "'a list \<Rightarrow> nat \<Rightarrow> py_error + 'a" where
  "py_index xs i = (if i < length xs then Inr (xs ! i) else Inl IndexError)"

text \<open>
  \<open>int(s)\<close> in base ten: the white space of C (TAB, LF, VT, FF, CR and the space) around the
  number is ignored, one sign is allowed, and the digits may be grouped by single underscores
  between two digits. Anything else raises \<open>ValueError\<close>, which is \<open>None\<close> here.
\<close>

definition c_isspace :: "char \<Rightarrow> bool" where
  "c_isspace c \<longleftrightarrow> c \<in> set [CHR 0x09, CHR 0x0A, CHR 0x0B, CHR 0x0C, CHR 0x0D, CHR 0x20]"

definition digit_val :: "char \<Rightarrow> int option" where
  "digit_val c = map_of (zip ''0123456789'' [0, 1, 2, 3, 4, 5, 6, 7, 8, 9]) c"

fun py_digits :: "int \<Rightarrow> string \<Rightarrow> int option" where
  "py_digits acc [] = Some acc"
| "py_digits acc [c] = (case digit_val c of None \<Rightarrow> None | Some v \<Rightarrow> Some (10 * acc + v))"
| "py_digits acc (c # d # cs) =
     (if c = CHR ''_''
      then (case digit_val d of None \<Rightarrow> None | Some v \<Rightarrow> py_digits (10 * acc + v) cs)
      else (case digit_val c of None \<Rightarrow> None | Some v \<Rightarrow> py_digits (10 * acc + v) (d # cs)))"

text \<open>The digits after the sign.\<close>

definition py_unsigned :: "string \<Rightarrow> int option" where
  "py_unsigned s =
     (case s of [] \<Rightarrow> None
      | c # cs \<Rightarrow> (case digit_val c of None \<Rightarrow> None | Some v \<Rightarrow> py_digits v cs))"

definition py_int :: "string \<Rightarrow> int option" where
  "py_int s =
     (case rev (dropWhile c_isspace (rev (dropWhile c_isspace s))) of [] \<Rightarrow> None
      | c # cs \<Rightarrow>
          if c = CHR ''-'' then map_option uminus (py_unsigned cs)
          else if c = CHR ''+'' then py_unsigned cs
          else py_unsigned (c # cs))"

subsection \<open>Min / Max storage\<close>

text \<open>
  One tracked metric: the value last written to column 1 of its row (the text is the number,
  formatted) and the two globals \<open>X_min\<close> and \<open>X_max\<close>, all \<open>None\<close> when the program starts.
  Column 4 holds the critical temperature of a GPU row once one was read.
\<close>

record 'a series =
  current :: "'a option"
  smin :: "'a option"
  smax :: "'a option"
  critical :: "'a option"

definition empty_series :: "'a series" where
  "empty_series = \<lparr>current = None, smin = None, smax = None, critical = None\<rparr>"

text \<open>
  The three statements every metric of \<open>update\<close> repeats:
  \<^verbatim>\<open>
  X_min = t if X_min is None else min(X_min, t)
  X_max = t if X_max is None else max(X_max, t)
  X_item.setText(1, f"{t:.1f}")
  \<close>
\<close>

definition track :: "'a::linorder \<Rightarrow> 'a series \<Rightarrow> 'a series" where
  "track t s =
     s\<lparr>smin := (case smin s of None \<Rightarrow> Some t | Some m \<Rightarrow> Some (min m t)),
       smax := (case smax s of None \<Rightarrow> Some t | Some m \<Rightarrow> Some (max m t)),
       current := Some t\<rparr>"

subsection \<open>Colour helpers\<close>

text \<open>
  \<^verbatim>\<open>
  def temp_colour(value):
      if value >= 85: return QColor("#c0392b")
      if value >= 80: return QColor("#f39c12")
      return None
  \<close>
  A colour is the string given to \<open>QColor\<close>. The red \<open>#c0392b\<close> is the critical tier, the
  orange \<open>#f39c12\<close> the warm tier and \<open>None\<close> the normal tier.
\<close>

definition temp_colour :: "real \<Rightarrow> string option" where
  "temp_colour v =
     (if v \<ge> 85 then Some ''#c0392b''
      else if v \<ge> 80 then Some ''#f39c12''
      else None)"

subsection \<open>Files\<close>

type_synonym dir = "(string \<times> string) list"

text \<open>\<open>(path / name).exists()\<close>\<close>

definition file_exists :: "dir option \<Rightarrow> string \<Rightarrow> bool" where
  "file_exists d n = (case d of None \<Rightarrow> False | Some fs \<Rightarrow> n \<in> set (map fst fs))"

text \<open>\<open>(path / name).read_text()\<close>\<close>

definition read_text :: "dir option \<Rightarrow> string \<Rightarrow> py_error + string" where
  "read_text d n =
     (case d of None \<Rightarrow> Inl OSError
      | Some fs \<Rightarrow> (case map_of fs n of None \<Rightarrow> Inl OSError | Some c \<Rightarrow> Inr c))"

text \<open>
  \<open>path.glob(pattern)\<close> with the pattern given as a predicate on names; a directory that is
  missing or cannot be listed yields nothing.
\<close>

definition glob :: "dir option \<Rightarrow> (string \<Rightarrow> bool) \<Rightarrow> string list" where
  "glob d pat = (case d of None \<Rightarrow> [] | Some fs \<Rightarrow> filter pat (map fst fs))"

text \<open>The patterns \<open>pre*suf\<close> (as in \<open>temp*_input\<close>, \<open>freq*_input\<close>, \<open>card*\<close>) and \<open>cpu[0-9]*\<close>.\<close>

definition match_affix :: "string \<Rightarrow> string \<Rightarrow> string \<Rightarrow> bool" where
  "match_affix pre suf n \<longleftrightarrow>
     length pre + length suf \<le> length n \<and> startswith n pre \<and> endswith n suf"

definition match_cpu :: "string \<Rightarrow> bool" where
  "match_cpu n \<longleftrightarrow> startswith n ''cpu'' \<and> 3 < length n \<and> digit_val (n ! 3) \<noteq> None"

text \<open>
  \<open>p.stem\<close>: the name up to its last dot, when that dot is neither the first nor the last
  character.
\<close>

definition py_stem :: "string \<Rightarrow> string" where
  "py_stem n =
     (let r = dropWhile (\<lambda>c. c \<noteq> CHR ''.'') (rev n) in
      if r = [] then n
      else let i = length r - 1 in if 0 < i \<and> i < length n - 1 then take i n else n)"

text \<open>\<open>int(f.read_text().strip())\<close>\<close>

definition int_of_text :: "string \<Rightarrow> py_error + int" where
  "int_of_text s = (case py_int (py_strip s) of None \<Rightarrow> Inl ValueError | Some n \<Rightarrow> Inr n)"

definition read_int :: "dir option \<Rightarrow> string \<Rightarrow> py_error + int" where
  "read_int d n = (case read_text d n of Inl e \<Rightarrow> Inl e | Inr s \<Rightarrow> int_of_text s)"

subsection \<open>Generic hwmon reader (temps)\<close>

text \<open>
  \<^verbatim>\<open>
  def read_hwmon(path):
      results = {}
      for p in path.glob("temp*_input"):
          idx = p.stem.replace("temp", "").replace("_input", "")
          label = path / f"temp{idx}_label"
          crit = path / f"temp{idx}_crit"
          if label.exists():
              name = label.read_text().strip()
              value = int(p.read_text().strip()) / 1000
              crit_val = int(crit.read_text().strip()) / 1000 if crit.exists() else None
              results[name] = (value, crit_val)
      return results
  \<close>
  The dictionary keeps the order in which its keys were first stored (\<open>update\<close> relies on it
  for the NVMe row), so it is an association list and \<open>results[name] = v\<close> is \<open>AList.update\<close>.
\<close>

type_synonym readings = "(string \<times> real \<times> real option) list"

definition temp_idx :: "string \<Rightarrow> string" where
  "temp_idx p = py_replace ''_input'' [] (py_replace ''temp'' [] (py_stem p))"

definition label_file :: "string \<Rightarrow> string" where
  "label_file p = ''temp'' @ temp_idx p @ ''_label''"

definition crit_file :: "string \<Rightarrow> string" where
  "crit_file p = ''temp'' @ temp_idx p @ ''_crit''"

definition read_crit :: "dir option \<Rightarrow> string \<Rightarrow> py_error + real option" where
  "read_crit d p =
     (if file_exists d (crit_file p)
      then (case read_int d (crit_file p) of Inl e \<Rightarrow> Inl e | Inr c \<Rightarrow> Inr (Some (real_of_int c / 1000)))
      else Inr None)"

fun read_hwmon_loop :: "dir option \<Rightarrow> string list \<Rightarrow> readings \<Rightarrow> py_error + readings" where
  "read_hwmon_loop d [] results = Inr results"
| "read_hwmon_loop d (p # ps) results =
     (if file_exists d (label_file p) then
        (case read_text d (label_file p) of Inl e \<Rightarrow> Inl e
         | Inr l \<Rightarrow>
            (case read_int d p of Inl e \<Rightarrow> Inl e
             | Inr v \<Rightarrow>
                (case read_crit d p of Inl e \<Rightarrow> Inl e
                 | Inr crit_val \<Rightarrow>
                    read_hwmon_loop d ps
                      (AList.update (py_strip l) (real_of_int v / 1000, crit_val) results))))
      else read_hwmon_loop d ps results)"

definition read_hwmon :: "dir option \<Rightarrow> py_error + readings" where
  "read_hwmon d = read_hwmon_loop d (glob d (match_affix ''temp'' ''_input'')) []"

subsection \<open>The environment of one call\<close>

text \<open>
  What the file system holds when a function runs: the three kinds of hwmon directory
  (\<open>CPU_HWMON\<close>, the list \<open>GPU_HWMONS\<close>, \<open>NVME_HWMON\<close>); the entries of
  \<open>/sys/devices/system/cpu\<close>, each with the content of its \<open>cpufreq/scaling_cur_freq\<close> when
  that file exists; \<open>/proc/cpuinfo\<close>; the file \<open>PCI_IDS\<close>; and the entries of \<open>/sys/class/drm\<close>,
  each with the contents of \<open>device/vendor\<close> and \<open>device/device\<close> when they exist.
\<close>

record env =
  cpu_hwmon :: "dir option"
  gpu_hwmons :: "dir option list"
  nvme_hwmon :: "dir option"
  sys_cpu :: "(string \<times> string option) list"
  proc_cpuinfo :: "string option"
  pci_ids :: "string option"
  sys_drm :: "(string \<times> string option \<times> string option) list"

subsection \<open>Clock / fan readers\<close>

text \<open>
  \<^verbatim>\<open>
  def read_cpu_clock():
      freqs = []
      for cpu in Path("/sys/devices/system/cpu").glob("cpu[0-9]*"):
          f = cpu / "cpufreq/scaling_cur_freq"
          if f.exists():
              freqs.append(int(f.read_text().strip()) / 1_000_000)  # GHz
      return sum(freqs) / len(freqs) if freqs else None
  \<close>
\<close>

fun read_cpu_clock_loop ::
  "(string \<times> string option) list \<Rightarrow> real list \<Rightarrow> py_error + real list" where
  "read_cpu_clock_loop [] freqs = Inr freqs"
| "read_cpu_clock_loop ((cpu, f) # cs) freqs =
     (case f of None \<Rightarrow> read_cpu_clock_loop cs freqs
      | Some t \<Rightarrow>
          (case int_of_text t of Inl e \<Rightarrow> Inl e
           | Inr v \<Rightarrow> read_cpu_clock_loop cs (freqs @ [real_of_int v / 1000000])))"

definition read_cpu_clock :: "env \<Rightarrow> py_error + real option" where
  "read_cpu_clock e =
     (case read_cpu_clock_loop (filter (\<lambda>(n, f). match_cpu n) (sys_cpu e)) [] of
        Inl err \<Rightarrow> Inl err
      | Inr freqs \<Rightarrow> Inr (if freqs \<noteq> [] then Some (sum_list freqs / real (length freqs)) else None))"

text \<open>
  \<^verbatim>\<open>
  def read_gpu_clocks_and_fan():
      core_clocks = []; mem_clock = None; fan = None
      for h in GPU_HWMONS:
          for p in h.glob("freq*_input"):
              val = int(p.read_text().strip())
              if val > 0:
                  core_clocks.append(val / 1_000_000)  # MHz
          f = h / "fan1_input"
          if f.exists():
              fan = int(f.read_text().strip())
          m = h / "freq2_input"
          if m.exists():
              mem_clock = int(m.read_text().strip()) / 1_000_000  # MHz
      core = max(core_clocks) if core_clocks else None
      return core, mem_clock, fan
  \<close>
\<close>

fun gpu_freq_loop :: "dir option \<Rightarrow> string list \<Rightarrow> real list \<Rightarrow> py_error + real list" where
  "gpu_freq_loop h [] core_clocks = Inr core_clocks"
| "gpu_freq_loop h (p # ps) core_clocks =
     (case read_int h p of Inl e \<Rightarrow> Inl e
      | Inr val \<Rightarrow>
          gpu_freq_loop h ps
            (if val > 0 then core_clocks @ [real_of_int val / 1000000] else core_clocks))"

definition read_fan :: "dir option \<Rightarrow> int option \<Rightarrow> py_error + int option" where
  "read_fan h fan =
     (if file_exists h ''fan1_input''
      then (case read_int h ''fan1_input'' of Inl e \<Rightarrow> Inl e | Inr v \<Rightarrow> Inr (Some v))
      else Inr fan)"

definition read_mem_clock :: "dir option \<Rightarrow> real option \<Rightarrow> py_error + real option" where
  "read_mem_clock h mem_clock =
     (if file_exists h ''freq2_input''
      then (case read_int h ''freq2_input'' of Inl e \<Rightarrow> Inl e
            | Inr v \<Rightarrow> Inr (Some (real_of_int v / 1000000)))
      else Inr mem_clock)"

fun gpu_dirs_loop ::
  "dir option list \<Rightarrow> real list \<times> real option \<times> int option \<Rightarrow>
     py_error + real list \<times> real option \<times> int option" where
  "gpu_dirs_loop [] acc = Inr acc"
| "gpu_dirs_loop (h # hs) (core_clocks, mem_clock, fan) =
     (case gpu_freq_loop h (glob h (match_affix ''freq'' ''_input'')) core_clocks of
        Inl e \<Rightarrow> Inl e
      | Inr core_clocks' \<Rightarrow>
          (case read_fan h fan of Inl e \<Rightarrow> Inl e
           | Inr fan' \<Rightarrow>
              (case read_mem_clock h mem_clock of Inl e \<Rightarrow> Inl e
               | Inr mem_clock' \<Rightarrow> gpu_dirs_loop hs (core_clocks', mem_clock', fan'))))"

text \<open>\<open>max(xs)\<close> on a list that is not empty.\<close>

definition py_max :: "'a::linorder list \<Rightarrow> 'a" where
  "py_max xs = fold max (tl xs) (hd xs)"

definition read_gpu_clocks_and_fan :: "env \<Rightarrow> py_error + real option \<times> real option \<times> int option" where
  "read_gpu_clocks_and_fan e =
     (case gpu_dirs_loop (gpu_hwmons e) ([], None, None) of
        Inl err \<Rightarrow> Inl err
      | Inr (core_clocks, mem_clock, fan) \<Rightarrow>
          Inr (if core_clocks \<noteq> [] then Some (py_max core_clocks) else None, mem_clock, fan))"

subsection \<open>Hardware name helpers\<close>

text \<open>
  \<^verbatim>\<open>
  def get_cpu_name():
      try:
          for line in Path("/proc/cpuinfo").read_text().splitlines():
              if line.startswith("model name"):
                  return line.split(":", 1)[1].strip()
      except Exception:
          pass
      return "Unknown CPU"
  \<close>
  The body of a \<open>try\<close> yields \<open>Inl\<close> when it raises, \<open>Inr (Some r)\<close> when it returns \<open>r\<close> and
  \<open>Inr None\<close> when it runs to its end; \<open>try_or\<close> is the \<open>except Exception: pass\<close> followed by
  the final \<open>return\<close>.
\<close>

definition try_or :: "py_error + 'a option \<Rightarrow> 'a \<Rightarrow> py_error + 'a" where
  "try_or body fallback =
     (case body of Inl e \<Rightarrow> Inr fallback | Inr None \<Rightarrow> Inr fallback | Inr (Some r) \<Rightarrow> Inr r)"

fun cpu_name_loop :: "string list \<Rightarrow> py_error + string option" where
  "cpu_name_loop [] = Inr None"
| "cpu_name_loop (line # ls) =
     (if startswith line ''model name''
      then (case py_index (py_split_sep1 (CHR '':'') line) 1 of
              Inl e \<Rightarrow> Inl e
            | Inr v \<Rightarrow> Inr (Some (py_strip v)))
      else cpu_name_loop ls)"

definition get_cpu_name_body :: "env \<Rightarrow> py_error + string option" where
  "get_cpu_name_body e =
     (case proc_cpuinfo e of None \<Rightarrow> Inl OSError | Some t \<Rightarrow> cpu_name_loop (py_splitlines t))"

definition get_cpu_name :: "env \<Rightarrow> py_error + string" where
  "get_cpu_name e = try_or (get_cpu_name_body e) ''Unknown CPU''"

text \<open>
  \<^verbatim>\<open>
  def lookup_pci_name(vendor, device):
      if not PCI_IDS.exists():
          return None
      vendor = vendor.lower()
      device = device.lower()
      current_vendor = None
      for line in PCI_IDS.read_text(errors="ignore").splitlines():
          if not line or line.startswith("#"):
              continue
          if not line.startswith("\t"):
              parts = line.split(maxsplit=1)
              current_vendor = parts[1] if parts[0].lower() == vendor and len(parts) > 1 else None
          elif current_vendor:
              parts = line.strip().split(maxsplit=1)
              if parts[0].lower() == device:
                  return f"{current_vendor} {parts[1]}"
      return None
  \<close>
  The loop takes the lowered identifiers; \<open>current_vendor\<close> is its third argument.
\<close>

fun lookup_loop ::
  "string \<Rightarrow> string \<Rightarrow> string option \<Rightarrow> string list \<Rightarrow> py_error + string option" where
  "lookup_loop vendor device current_vendor [] = Inr None"
| "lookup_loop vendor device current_vendor (line # ls) =
     (if line = [] \<or> startswith line ''#'' then lookup_loop vendor device current_vendor ls
      else if \<not> startswith line [CHR 0x09] then
        (case py_index (py_split1 line) 0 of
           Inl e \<Rightarrow> Inl e
         | Inr p0 \<Rightarrow>
             lookup_loop vendor device
               (if py_lower p0 = vendor \<and> length (py_split1 line) > 1
                then Some (py_split1 line ! 1) else None) ls)
      else if current_vendor \<noteq> None \<and> current_vendor \<noteq> Some [] then
        (case py_index (py_split1 (py_strip line)) 0 of
           Inl e \<Rightarrow> Inl e
         | Inr p0 \<Rightarrow>
             if py_lower p0 = device
             then (case py_index (py_split1 (py_strip line)) 1 of
                     Inl e \<Rightarrow> Inl e
                   | Inr p1 \<Rightarrow> Inr (Some (the current_vendor @ '' '' @ p1)))
             else lookup_loop vendor device current_vendor ls)
      else lookup_loop vendor device current_vendor ls)"

definition lookup_pci_name :: "string option \<Rightarrow> string \<Rightarrow> string \<Rightarrow> py_error + string option" where
  "lookup_pci_name db vendor device =
     (case db of None \<Rightarrow> Inr None
      | Some t \<Rightarrow> lookup_loop (py_lower vendor) (py_lower device) None (py_splitlines t))"

text \<open>
  \<^verbatim>\<open>
  def get_gpu_name():
      try:
          for card in Path("/sys/class/drm").glob("card*"):
              vendor_file = card / "device/vendor"
              device_file = card / "device/device"
              if not (vendor_file.exists() and device_file.exists()):
                  continue
              vendor = vendor_file.read_text().strip().replace("0x", "")
              device = device_file.read_text().strip().replace("0x", "")
              name = lookup_pci_name(vendor, device)
              if name:
                  return name, True
              return f"AMD Radeon [{vendor}:{device}]", False
      except Exception:
          pass
      return "Unknown GPU", False
  \<close>
\<close>

definition hex_id :: "string \<Rightarrow> string" where
  "hex_id t = py_replace ''0x'' [] (py_strip t)"

fun gpu_name_loop ::
  "string option \<Rightarrow> (string \<times> string option \<times> string option) list \<Rightarrow>
     py_error + (string \<times> bool) option" where
  "gpu_name_loop db [] = Inr None"
| "gpu_name_loop db ((card_dir, vendor_file, device_file) # cs) =
     (case (vendor_file, device_file) of
        (Some v, Some d) \<Rightarrow>
          (case lookup_pci_name db (hex_id v) (hex_id d) of
             Inl e \<Rightarrow> Inl e
           | Inr name \<Rightarrow>
               if name \<noteq> None \<and> name \<noteq> Some []
               then Inr (Some (the name, True))
               else Inr (Some (''AMD Radeon ['' @ hex_id v @ '':'' @ hex_id d @ '']'', False)))
      | _ \<Rightarrow> gpu_name_loop db cs)"

definition get_gpu_name_body :: "env \<Rightarrow> py_error + (string \<times> bool) option" where
  "get_gpu_name_body e =
     gpu_name_loop (pci_ids e) (filter (\<lambda>(n, v, d). match_affix ''card'' [] n) (sys_drm e))"

definition get_gpu_name :: "env \<Rightarrow> py_error + string \<times> bool" where
  "get_gpu_name e = try_or (get_gpu_name_body e) (''Unknown GPU'', False)"

subsection \<open>Update loop\<close>

text \<open>
  The globals of \<open>update\<close> with the rows they are shown in. The fan speed is an \<open>int\<close>, every
  other metric a \<open>float\<close>.
\<close>

record state =
  cpu_pkg :: "real series"
  cpu_die :: "real series"
  cpu_clk :: "real series"
  gpu_temp :: "real series"
  gpu_hot :: "real series"
  gpu_mem :: "real series"
  gpu_clk :: "real series"
  gpu_memclk :: "real series"
  gpu_fan :: "int series"
  nvme :: "real series"

definition init_state :: state where
  "init_state =
     \<lparr>cpu_pkg = empty_series, cpu_die = empty_series, cpu_clk = empty_series,
      gpu_temp = empty_series, gpu_hot = empty_series, gpu_mem = empty_series,
      gpu_clk = empty_series, gpu_memclk = empty_series, gpu_fan = empty_series,
      nvme = empty_series\<rparr>"

text \<open>
  The truth value of an optional number in \<open>if x:\<close>: \<open>None\<close> and zero are false.
\<close>

definition truthy :: "'a::zero option \<Rightarrow> bool" where
  "truthy x \<longleftrightarrow> x \<noteq> None \<and> x \<noteq> Some 0"

text \<open>
  A GPU temperature row also shows the critical value, under \<open>if c:\<close>
  \<^verbatim>\<open>
  if c:
      gpu_temp_item.setText(4, f"{c:.0f}")
  \<close>
\<close>

definition track_crit :: "real \<times> real option \<Rightarrow> real series \<Rightarrow> real series" where
  "track_crit tc s =
     (let s' = track (fst tc) s in if truthy (snd tc) then s'\<lparr>critical := snd tc\<rparr> else s')"

text \<open>
  A run of \<open>update\<close> ends with the state it reached and the exception that stopped it, if
  one did: the globals assigned before a \<open>raise\<close> keep their new values.
\<close>

type_synonym outcome = "state \<times> py_error option"

definition and_then :: "outcome \<Rightarrow> (state \<Rightarrow> outcome) \<Rightarrow> outcome" where
  "and_then r f = (case r of (s, None) \<Rightarrow> f s | (s, Some e) \<Rightarrow> (s, Some e))"

text \<open>
  Lines 266 to 284: the CPU temperatures.
  \<^verbatim>\<open>
  cpu = read_hwmon(CPU_HWMON)
  if "Tctl" in cpu:
      t, _ = cpu["Tctl"]
      ... cpu_pkg ...
  if "Tccd1" in cpu:
      t, _ = cpu["Tccd1"]
      ... cpu_die ...
  \<close>
\<close>

definition update_cpu_temps :: "env \<Rightarrow> state \<Rightarrow> outcome" where
  "update_cpu_temps e s =
     (case read_hwmon (cpu_hwmon e) of
        Inl err \<Rightarrow> (s, Some err)
      | Inr cpu \<Rightarrow>
          (let s1 = (case map_of cpu ''Tctl'' of
                       None \<Rightarrow> s
                     | Some (t, c) \<Rightarrow> s\<lparr>cpu_pkg := track t (cpu_pkg s)\<rparr>);
               s2 = (case map_of cpu ''Tccd1'' of
                       None \<Rightarrow> s1
                     | Some (t, c) \<Rightarrow> s1\<lparr>cpu_die := track t (cpu_die s1)\<rparr>)
           in (s2, None)))"

text \<open>
  Lines 286 to 292: the CPU clock, under \<open>if clk:\<close>.
  \<^verbatim>\<open>
  clk = read_cpu_clock()
  if clk:
      cpu_clk_min = clk if cpu_clk_min is None else min(cpu_clk_min, clk)
      ...
  \<close>
\<close>

definition apply_cpu_clock :: "real option \<Rightarrow> state \<Rightarrow> state" where
  "apply_cpu_clock clk s =
     (if truthy clk then s\<lparr>cpu_clk := track (the clk) (cpu_clk s)\<rparr> else s)"

definition update_cpu_clock :: "env \<Rightarrow> state \<Rightarrow> outcome" where
  "update_cpu_clock e s =
     (case read_cpu_clock e of
        Inl err \<Rightarrow> (s, Some err)
      | Inr clk \<Rightarrow> (apply_cpu_clock clk s, None))"

text \<open>
  Lines 294 to 328: the loop over \<open>GPU_HWMONS\<close>, with the keys \<open>edge\<close>, \<open>junction\<close> and \<open>mem\<close>.
\<close>

definition update_gpu_dir :: "readings \<Rightarrow> state \<Rightarrow> state" where
  "update_gpu_dir gpu s =
     (let s1 = (case map_of gpu ''edge'' of
                  None \<Rightarrow> s
                | Some tc \<Rightarrow> s\<lparr>gpu_temp := track_crit tc (gpu_temp s)\<rparr>);
          s2 = (case map_of gpu ''junction'' of
                  None \<Rightarrow> s1
                | Some tc \<Rightarrow> s1\<lparr>gpu_hot := track_crit tc (gpu_hot s1)\<rparr>);
          s3 = (case map_of gpu ''mem'' of
                  None \<Rightarrow> s2
                | Some tc \<Rightarrow> s2\<lparr>gpu_mem := track_crit tc (gpu_mem s2)\<rparr>)
      in s3)"

fun update_gpu_temps :: "dir option list \<Rightarrow> state \<Rightarrow> outcome" where
  "update_gpu_temps [] s = (s, None)"
| "update_gpu_temps (path # paths) s =
     (case read_hwmon path of
        Inl err \<Rightarrow> (s, Some err)
      | Inr gpu \<Rightarrow> update_gpu_temps paths (update_gpu_dir gpu s))"

text \<open>
  Lines 330 to 351: \<open>if gclk:\<close>, \<open>if gmemclk:\<close> and \<open>if gfan is not None:\<close>.
  \<^verbatim>\<open>
  gclk, gmemclk, gfan = read_gpu_clocks_and_fan()
  if gclk:
      ... gpu_clk ...
  if gmemclk:
      ... gpu_memclk ...
  if gfan is not None:
      ... gpu_fan ...
  \<close>
\<close>

definition apply_gpu_clocks :: "real option \<times> real option \<times> int option \<Rightarrow> state \<Rightarrow> state" where
  "apply_gpu_clocks r s =
     (case r of (gclk, gmemclk, gfan) \<Rightarrow>
        (let s1 = (if truthy gclk then s\<lparr>gpu_clk := track (the gclk) (gpu_clk s)\<rparr> else s);
             s2 = (if truthy gmemclk
                   then s1\<lparr>gpu_memclk := track (the gmemclk) (gpu_memclk s1)\<rparr> else s1);
             s3 = (if gfan \<noteq> None then s2\<lparr>gpu_fan := track (the gfan) (gpu_fan s2)\<rparr> else s2)
         in s3))"

definition update_gpu_clocks :: "env \<Rightarrow> state \<Rightarrow> outcome" where
  "update_gpu_clocks e s =
     (case read_gpu_clocks_and_fan e of
        Inl err \<Rightarrow> (s, Some err)
      | Inr r \<Rightarrow> (apply_gpu_clocks r s, None))"

text \<open>
  Lines 353 to 360: the first entry of the NVMe readings, under \<open>if nvme:\<close>.
\<close>

definition update_nvme :: "env \<Rightarrow> state \<Rightarrow> outcome" where
  "update_nvme e s =
     (case read_hwmon (nvme_hwmon e) of
        Inl err \<Rightarrow> (s, Some err)
      | Inr nv \<Rightarrow>
          (case nv of
             [] \<Rightarrow> (s, None)
           | (k, t, c) # rest \<Rightarrow> (s\<lparr>nvme := track t (nvme s)\<rparr>, None)))"

definition update :: "env \<Rightarrow> state \<Rightarrow> outcome" where
  "update e s =
     and_then (and_then (and_then (and_then
       (update_cpu_temps e s)
       (update_cpu_clock e))
       (update_gpu_temps (gpu_hwmons e)))
       (update_gpu_clocks e))
       (update_nvme e)"

text \<open>
  The timer calls \<open>update\<close> once per tick, each time on the file system of that moment; an
  exception ends the call and the next tick starts from the globals as they are.
\<close>

fun ticks :: "env list \<Rightarrow> state \<Rightarrow> state" where
  "ticks [] s = s"
| "ticks (e # es) s = ticks es (fst (update e s))"

subsection \<open>Properties of a series\<close>

text \<open>
  A series is well formed when it is still empty or when its minimum, its current value and
  its maximum are all set and in this order.
\<close>

definition series_ok :: "'a::linorder series \<Rightarrow> bool" where
  "series_ok s =
     (case (smin s, current s, smax s) of
        (None, None, None) \<Rightarrow> True
      | (Some l, Some c, Some h) \<Rightarrow> l \<le> c \<and> c \<le> h
      | _ \<Rightarrow> False)"

text \<open>From \<open>a\<close> to \<open>b\<close> a minimum that was set stays set and does not grow.\<close>

definition min_kept :: "'a::linorder series \<Rightarrow> 'a series \<Rightarrow> bool" where
  "min_kept a b =
     (case smin a of None \<Rightarrow> True
      | Some l \<Rightarrow> (case smin b of None \<Rightarrow> False | Some l' \<Rightarrow> l' \<le> l))"

text \<open>From \<open>a\<close> to \<open>b\<close> a maximum that was set stays set and does not shrink.\<close>

definition max_kept :: "'a::linorder series \<Rightarrow> 'a series \<Rightarrow> bool" where
  "max_kept a b =
     (case smax a of None \<Rightarrow> True
      | Some h \<Rightarrow> (case smax b of None \<Rightarrow> False | Some h' \<Rightarrow> h \<le> h'))"

text \<open>
  The series \<open>b\<close> shows what \<open>a\<close> shows after some samples \<open>vs\<close> were fed to it one by one.
\<close>

definition same_values :: "'a series \<Rightarrow> 'a series \<Rightarrow> bool" where
  "same_values a b \<longleftrightarrow> current a = current b \<and> smin a = smin b \<and> smax a = smax b"

definition fed :: "'a::linorder series \<Rightarrow> 'a series \<Rightarrow> bool" where
  "fed a b \<longleftrightarrow> (\<exists>vs. same_values b (fold track vs a))"

definition series_step :: "'a::linorder series \<Rightarrow> 'a series \<Rightarrow> bool" where
  "series_step a b \<longleftrightarrow> series_ok b \<and> min_kept a b \<and> max_kept a b \<and> fed a b"

definition state_ok :: "state \<Rightarrow> bool" where
  "state_ok s \<longleftrightarrow>
     series_ok (cpu_pkg s) \<and> series_ok (cpu_die s) \<and> series_ok (cpu_clk s) \<and>
     series_ok (gpu_temp s) \<and> series_ok (gpu_hot s) \<and> series_ok (gpu_mem s) \<and>
     series_ok (gpu_clk s) \<and> series_ok (gpu_memclk s) \<and> series_ok (gpu_fan s) \<and>
     series_ok (nvme s)"

definition state_step :: "state \<Rightarrow> state \<Rightarrow> bool" where
  "state_step s s' \<longleftrightarrow>
     series_step (cpu_pkg s) (cpu_pkg s') \<and> series_step (cpu_die s) (cpu_die s') \<and>
     series_step (cpu_clk s) (cpu_clk s') \<and> series_step (gpu_temp s) (gpu_temp s') \<and>
     series_step (gpu_hot s) (gpu_hot s') \<and> series_step (gpu_mem s) (gpu_mem s') \<and>
     series_step (gpu_clk s) (gpu_clk s') \<and> series_step (gpu_memclk s) (gpu_memclk s') \<and>
     series_step (gpu_fan s) (gpu_fan s') \<and> series_step (nvme s) (nvme s')"

subsection \<open>Channels of a sensor directory\<close>

text \<open>
  The temperature channels of a directory are the names \<open>read_hwmon\<close> enumerates, in that
  order. A channel is labelled when its label file exists; its numbers are well formed when
  \<open>int\<close> accepts the value file and, if there is a critical file, that one too.
\<close>

definition channels :: "dir option \<Rightarrow> string list" where
  "channels d = glob d (match_affix ''temp'' ''_input'')"

definition labelled :: "dir option \<Rightarrow> string \<Rightarrow> bool" where
  "labelled d p \<longleftrightarrow> file_exists d (label_file p)"

definition numbers_ok :: "dir option \<Rightarrow> string \<Rightarrow> bool" where
  "numbers_ok d p \<longleftrightarrow> \<not> isl (read_int d p) \<and> \<not> isl (read_crit d p)"

definition hwmon_well_formed :: "dir option \<Rightarrow> bool" where
  "hwmon_well_formed d \<longleftrightarrow> (\<forall>p \<in> set (channels d). labelled d p \<longrightarrow> numbers_ok d p)"

text \<open>The label of a labelled channel: the text of its label file, stripped.\<close>

definition label_text :: "dir option \<Rightarrow> string \<Rightarrow> string" where
  "label_text d p = (case read_text d (label_file p) of Inl e \<Rightarrow> [] | Inr l \<Rightarrow> py_strip l)"

text \<open>
  What one pass of the loop of \<open>read_hwmon\<close> does to \<open>results\<close> at a channel whose numbers are
  well formed.
\<close>

definition store :: "dir option \<Rightarrow> string \<Rightarrow> readings \<Rightarrow> readings" where
  "store d p results =
     (if labelled d p
      then AList.update (label_text d p)
             (real_of_int (projr (read_int d p)) / 1000, projr (read_crit d p)) results
      else results)"

text \<open>
  Two labelled channels of one directory with the same label, and a directory in which the
  second of two labelled channels holds no number.
\<close>

definition ex_twin_dir :: dir where
  "ex_twin_dir =
     [(''temp1_input'', ''30000''), (''temp1_label'', ''Sensor''),
      (''temp2_input'', ''35000''), (''temp2_label'', ''Sensor'')]"

definition ex_bad_dir :: dir where
  "ex_bad_dir =
     [(''temp1_input'', ''45000''), (''temp1_label'', ''Tctl''),
      (''temp3_input'', ''fault''), (''temp3_label'', ''Tccd1'')]"

subsection \<open>What the clock readers see\<close>

text \<open>
  The contents of the \<open>scaling_cur_freq\<close> files that exist, in the order of enumeration, and
  the frequency in GHz that such a file holds in kHz.
\<close>

definition present_freqs :: "env \<Rightarrow> string list" where
  "present_freqs e = List.map_filter snd (filter (\<lambda>(n, f). match_cpu n) (sys_cpu e))"

definition ghz :: "string \<Rightarrow> real" where
  "ghz t = real_of_int (projr (int_of_text t)) / 1000000"

text \<open>
  The frequency channels of a GPU directory; a list of GPU directories is well formed when
  \<open>int\<close> accepts every frequency file and every \<open>fan1_input\<close>.
\<close>

definition freq_files :: "dir option \<Rightarrow> string list" where
  "freq_files h = glob h (match_affix ''freq'' ''_input'')"

definition gpu_well_formed :: "dir option list \<Rightarrow> bool" where
  "gpu_well_formed hs \<longleftrightarrow>
     (\<forall>h \<in> set hs.
        (\<forall>p \<in> set (freq_files h). \<not> isl (read_int h p)) \<and>
        (file_exists h ''fan1_input'' \<longrightarrow> \<not> isl (read_int h ''fan1_input'')))"

text \<open>The integer a file holds, for a file that holds one.\<close>

definition int_in :: "dir option \<Rightarrow> string \<Rightarrow> int" where
  "int_in h p = projr (read_int h p)"

text \<open>The strictly positive frequency readings of all directories, in MHz.\<close>

definition core_readings :: "dir option list \<Rightarrow> real list" where
  "core_readings hs =
     concat (map (\<lambda>h. map (\<lambda>v. real_of_int v / 1000000)
                        (filter (\<lambda>v. v > 0) (map (int_in h) (freq_files h)))) hs)"

text \<open>The last directory of the list in which the file \<open>slot\<close> exists.\<close>

definition last_with :: "string \<Rightarrow> dir option list \<Rightarrow> dir option option" where
  "last_with slot hs =
     (case filter (\<lambda>h. file_exists h slot) hs of [] \<Rightarrow> None | x # xs \<Rightarrow> Some (last (x # xs)))"

subsection \<open>Example file systems\<close>

text \<open>
  A CPU sensor directory as the \<open>k10temp\<close> driver shows it: channel 1 is \<open>Tctl\<close>, channel 3 is
  \<open>Tccd1\<close> with a critical value, channel 2 has no label file.
\<close>

definition ex_cpu_dir :: dir where
  "ex_cpu_dir =
     [(''temp1_input'', ''45000''), (''temp1_label'', ''Tctl''),
      (''temp2_input'', ''n/a''),
      (''temp3_input'', ''51500''), (''temp3_label'', ''Tccd1''), (''temp3_crit'', ''100000'')]"

text \<open>A GPU sensor directory: one temperature, two clocks of which one is idle, a stopped fan.\<close>

definition ex_gpu_dir :: dir where
  "ex_gpu_dir =
     [(''temp1_input'', ''60000''), (''temp1_label'', ''edge''), (''temp1_crit'', ''100000''),
      (''freq1_input'', ''500000000''), (''freq2_input'', ''0''), (''fan1_input'', ''0'')]"

definition ex_env :: env where
  "ex_env =
     \<lparr>cpu_hwmon = Some ex_cpu_dir, gpu_hwmons = [None, Some ex_gpu_dir], nvme_hwmon = None,
      sys_cpu = [(''cpu0'', Some ''3000000''), (''cpufreq'', None), (''cpu1'', None),
                 (''cpu2'', Some ''4000000'')],
      proc_cpuinfo = None, pci_ids = None, sys_drm = []\<rparr>"

text \<open>The same machine a tick later, cooler, with the second GPU clock running.\<close>

definition ex_env2 :: env where
  "ex_env2 =
     ex_env\<lparr>cpu_hwmon := Some [(''temp1_input'', ''40000''), (''temp1_label'', ''Tctl'')],
            gpu_hwmons := [None, Some [(''freq1_input'', ''300000000''),
                                       (''freq2_input'', ''96000000''),
                                       (''fan1_input'', ''1200'')]]\<rparr>"

text \<open>
  Two GPU directories that both report a fan; only the first has the memory clock slot
  \<open>freq2_input\<close>, and one clock of the second is idle.
\<close>

definition ex_gpu_env :: env where
  "ex_gpu_env =
     ex_env\<lparr>gpu_hwmons :=
       [Some [(''freq1_input'', ''2100000000''), (''freq2_input'', ''96000000''),
              (''fan1_input'', ''800'')],
        Some [(''freq1_input'', ''300000000''), (''freq3_input'', ''0''),
              (''fan1_input'', ''1200'')]]\<rparr>"

subsection \<open>Sources of a tick\<close>

text \<open>
  A sensor directory supplies a key when \<open>read_hwmon\<close> returns a mapping that contains it.
\<close>

definition supplies :: "dir option \<Rightarrow> string \<Rightarrow> bool" where
  "supplies d k = (case read_hwmon d of Inl e \<Rightarrow> False | Inr m \<Rightarrow> map_of m k \<noteq> None)"

text \<open>The minimum of none of the three clock series is zero.\<close>

definition clock_mins_nonzero :: "state \<Rightarrow> bool" where
  "clock_mins_nonzero s \<longleftrightarrow>
     smin (cpu_clk s) \<noteq> Some 0 \<and> smin (gpu_clk s) \<noteq> Some 0 \<and> smin (gpu_memclk s) \<noteq> Some 0"

text \<open>A machine without any of the sensor files.\<close>

definition ex_bare_env :: env where
  "ex_bare_env =
     \<lparr>cpu_hwmon = None, gpu_hwmons = [None, None], nvme_hwmon = None, sys_cpu = [],
      proc_cpuinfo = None, pci_ids = None, sys_drm = []\<rparr>"

text \<open>A machine whose only core and whose GPU memory clock report zero.\<close>

definition ex_idle_env :: env where
  "ex_idle_env =
     ex_bare_env\<lparr>sys_cpu := [(''cpu0'', Some ''0'')],
                 gpu_hwmons := [Some [(''freq2_input'', ''0''), (''fan1_input'', ''0'')]]\<rparr>"

subsection \<open>Samples of a tick\<close>

text \<open>
  What the readers hand to \<open>update\<close> at one tick, metric by metric. A sensor directory gives
  the reading stored under a key, if \<open>read_hwmon\<close> returns and the key is in the mapping.
\<close>

definition reading :: "dir option \<Rightarrow> string \<Rightarrow> (real \<times> real option) option" where
  "reading d k = (case read_hwmon d of Inl e \<Rightarrow> None | Inr m \<Rightarrow> map_of m k)"

text \<open>
  The samples that pass the guards \<open>if x is not None:\<close> and \<open>if x:\<close>: none or one.
\<close>

definition if_some :: "'a option \<Rightarrow> 'a list" where
  "if_some x = (case x of None \<Rightarrow> [] | Some v \<Rightarrow> [v])"

definition if_truthy :: "'a::zero option \<Rightarrow> 'a list" where
  "if_truthy x = (if truthy x then [the x] else [])"

definition pkg_samples :: "env \<Rightarrow> real list" where
  "pkg_samples e = map fst (if_some (reading (cpu_hwmon e) ''Tctl''))"

definition die_samples :: "env \<Rightarrow> real list" where
  "die_samples e = map fst (if_some (reading (cpu_hwmon e) ''Tccd1''))"

definition cpu_clk_samples :: "env \<Rightarrow> real list" where
  "cpu_clk_samples e = (case read_cpu_clock e of Inl err \<Rightarrow> [] | Inr clk \<Rightarrow> if_truthy clk)"

text \<open>
  The readings of a key in the GPU directories, in the order of \<open>GPU_HWMONS\<close>, up to the
  first directory on which \<open>read_hwmon\<close> raises.
\<close>

definition gpu_readings :: "env \<Rightarrow> string \<Rightarrow> (real \<times> real option) list" where
  "gpu_readings e k =
     List.map_filter (\<lambda>d. reading d k) (takeWhile (\<lambda>d. \<not> isl (read_hwmon d)) (gpu_hwmons e))"

definition gpu_clk_samples :: "env \<Rightarrow> real list" where
  "gpu_clk_samples e =
     (case read_gpu_clocks_and_fan e of Inl err \<Rightarrow> [] | Inr (gclk, gmemclk, gfan) \<Rightarrow> if_truthy gclk)"

definition gpu_memclk_samples :: "env \<Rightarrow> real list" where
  "gpu_memclk_samples e =
     (case read_gpu_clocks_and_fan e of
        Inl err \<Rightarrow> []
      | Inr (gclk, gmemclk, gfan) \<Rightarrow> if_truthy gmemclk)"

definition gpu_fan_samples :: "env \<Rightarrow> int list" where
  "gpu_fan_samples e =
     (case read_gpu_clocks_and_fan e of Inl err \<Rightarrow> [] | Inr (gclk, gmemclk, gfan) \<Rightarrow> if_some gfan)"

definition nvme_samples :: "env \<Rightarrow> real list" where
  "nvme_samples e =
     (case read_hwmon (nvme_hwmon e) of
        Inl err \<Rightarrow> []
      | Inr nv \<Rightarrow> (case nv of [] \<Rightarrow> [] | (k, t, c) # rest \<Rightarrow> [t]))"

text \<open>
  The part of \<open>update\<close> for a metric is reached when no reader called before it raised.
\<close>

definition reaches_cpu_clock :: "env \<Rightarrow> bool" where
  "reaches_cpu_clock e \<longleftrightarrow> \<not> isl (read_hwmon (cpu_hwmon e))"

definition reaches_gpu_temps :: "env \<Rightarrow> bool" where
  "reaches_gpu_temps e \<longleftrightarrow> reaches_cpu_clock e \<and> \<not> isl (read_cpu_clock e)"

definition reaches_gpu_clocks :: "env \<Rightarrow> bool" where
  "reaches_gpu_clocks e \<longleftrightarrow>
     reaches_gpu_temps e \<and> list_all (\<lambda>d. \<not> isl (read_hwmon d)) (gpu_hwmons e)"

definition reaches_nvme :: "env \<Rightarrow> bool" where
  "reaches_nvme e \<longleftrightarrow> reaches_gpu_clocks e \<and> \<not> isl (read_gpu_clocks_and_fan e)"

text \<open>A machine with the CPU, GPU and NVMe sensors, at two ticks.\<close>

definition ex_full_env :: env where
  "ex_full_env =
     ex_env\<lparr>gpu_hwmons :=
              [None,
               Some [(''temp1_input'', ''60000''), (''temp1_label'', ''edge''),
                     (''temp1_crit'', ''100000''),
                     (''temp2_input'', ''70000''), (''temp2_label'', ''junction''),
                     (''temp2_crit'', ''110000''),
                     (''temp3_input'', ''64000''), (''temp3_label'', ''mem''),
                     (''freq1_input'', ''500000000''), (''freq2_input'', ''96000000''),
                     (''fan1_input'', ''1200'')]],
            nvme_hwmon := Some [(''temp1_input'', ''38000''), (''temp1_label'', ''Composite''),
                                (''temp2_input'', ''41000''), (''temp2_label'', ''Sensor 1'')]\<rparr>"

definition ex_full_env2 :: env where
  "ex_full_env2 =
     ex_full_env\<lparr>cpu_hwmon := Some [(''temp1_input'', ''40000''), (''temp1_label'', ''Tctl'')],
                 nvme_hwmon := Some [(''temp1_input'', ''39500''),
                                     (''temp1_label'', ''Composite'')]\<rparr>"

subsection \<open>What the name helpers see\<close>

text \<open>
  The first line of \<open>/proc/cpuinfo\<close> that starts with \<open>model name\<close>, and what follows the
  first colon of a line.
\<close>

definition model_line :: "env \<Rightarrow> string option" where
  "model_line e =
     (case proc_cpuinfo e of
        None \<Rightarrow> None
      | Some t \<Rightarrow> List.find (\<lambda>l. startswith l ''model name'') (py_splitlines t))"

definition after_colon :: "string \<Rightarrow> string" where
  "after_colon l = tl (dropWhile (\<lambda>c. c \<noteq> CHR '':'') l)"

text \<open>
  The identifiers of the first graphics device, in the order of enumeration, that has both
  identifier files: their contents, stripped and without \<open>0x\<close>.
\<close>

definition first_gpu :: "env \<Rightarrow> (string \<times> string) option" where
  "first_gpu e =
     (case filter (\<lambda>(n, v, d). match_affix ''card'' [] n \<and> v \<noteq> None \<and> d \<noteq> None) (sys_drm e) of
        [] \<Rightarrow> None
      | (n, v, d) # rest \<Rightarrow> Some (hex_id (the v), hex_id (the d)))"

text \<open>
  A vendor record with one device record; the same with a line of one space in front; and a
  machine with one graphics device.
\<close>

definition ex_pci_ids :: string where
  "ex_pci_ids =
     ''# PCI vendors'' @ [CHR 0x0A] @
     ''10de  NVIDIA Corporation'' @ [CHR 0x0A] @
     [CHR 0x09] @ ''1234  Some GPU'' @ [CHR 0x0A]"

definition ex_pci_ids_blank :: string where
  "ex_pci_ids_blank = '' '' @ [CHR 0x0A] @ ex_pci_ids"

definition ex_gpu_machine :: env where
  "ex_gpu_machine =
     ex_bare_env\<lparr>proc_cpuinfo := Some (''processor : 0'' @ [CHR 0x0A] @
                                       ''model name : AMD Ryzen 7 5800X'' @ [CHR 0x0A]),
                 pci_ids := Some ex_pci_ids,
                 sys_drm := [(''card0-DP-1'', None, None),
                             (''card0'', Some (''0x10DE'' @ [CHR 0x0A]), Some (''0x1234'' @ [CHR 0x0A]))]\<rparr>"

subsection \<open>Records of the PCI database\<close>

text \<open>
  The lines of the database, in the words of its format. A line is skipped when it is empty
  or begins with the comment marker. A line is indented when it begins with a tab. A vendor
  line for an identifier is an unindented line whose first field is the identifier, in any
  case, and which has a second field, the vendor name. A device line for an identifier is an
  indented line whose first field is the identifier, in any case; its second field is the
  device name. The identifier given to these predicates is in lower case already.
\<close>

definition skipped :: "string \<Rightarrow> bool" where
  "skipped l \<longleftrightarrow> l = [] \<or> startswith l ''#''"

definition indented :: "string \<Rightarrow> bool" where
  "indented l \<longleftrightarrow> startswith l [CHR 0x09]"

definition vendor_line :: "string \<Rightarrow> string \<Rightarrow> bool" where
  "vendor_line v l \<longleftrightarrow>
     \<not> skipped l \<and> \<not> indented l \<and> length (py_split1 l) > 1 \<and> py_lower (py_split1 l ! 0) = v"

definition vendor_name :: "string \<Rightarrow> string" where
  "vendor_name l = py_split1 l ! 1"

definition device_line :: "string \<Rightarrow> string \<Rightarrow> bool" where
  "device_line d l \<longleftrightarrow>
     indented l \<and> py_split1 (py_strip l) \<noteq> [] \<and> py_lower (py_split1 (py_strip l) ! 0) = d"

definition device_name :: "string \<Rightarrow> string" where
  "device_name l = py_split1 (py_strip l) ! 1"

text \<open>
  In the lines \<open>ls\<close> that follow a vendor line, a device line for \<open>d\<close> with the name \<open>dn\<close> comes
  before the next unindented line.
\<close>

definition under :: "string \<Rightarrow> string list \<Rightarrow> string \<Rightarrow> bool" where
  "under d ls dn \<longleftrightarrow>
     (\<exists>block dl post.
        ls = block @ dl # post \<and> (\<forall>l \<in> set block. skipped l \<or> indented l) \<and>
        device_line d dl \<and> dn = device_name dl)"

text \<open>
  The lines \<open>ls\<close> list the device \<open>d\<close> of the vendor \<open>v\<close> under the name \<open>name\<close>: a vendor line
  for \<open>v\<close> is followed, before the next unindented line, by a device line for \<open>d\<close>, and
  \<open>name\<close> is the vendor name, a space and the device name.
\<close>

definition listed :: "string \<Rightarrow> string \<Rightarrow> string list \<Rightarrow> string \<Rightarrow> bool" where
  "listed v d ls name \<longleftrightarrow>
     (\<exists>pre vl rest dn.
        ls = pre @ vl # rest \<and> vendor_line v vl \<and> under d rest dn \<and>
        name = vendor_name vl @ '' '' @ dn)"

text \<open>
  A database is well formed when every line that is not skipped has an identifier and every
  indented one also a name.
\<close>

definition db_well_formed :: "string list \<Rightarrow> bool" where
  "db_well_formed ls \<longleftrightarrow>
     (\<forall>l \<in> set ls. \<not> skipped l \<longrightarrow>
        (if indented l then length (py_split1 (py_strip l)) > 1 else py_split1 l \<noteq> []))"

section \<open>Theorems\<close>

subsection \<open>The aggregation of one metric\<close>

lemma track_same: "same_values a a' \<Longrightarrow> same_values (track v a) (track v a')"
  by (simp add: same_values_def track_def)

lemma fold_track_same:
  "same_values a a' \<Longrightarrow> same_values (fold track vs a) (fold track vs a')"
  by (induction vs arbitrary: a a') (simp_all add: track_same)

lemma fed_refl: "fed a a"
proof -
  have "same_values a (fold track [] a)" by (simp add: same_values_def)
  then show ?thesis unfolding fed_def by blast
qed

lemma fed_track: "fed a (track v a)"
proof -
  have "same_values (track v a) (fold track [v] a)" by (simp add: same_values_def)
  then show ?thesis unfolding fed_def by blast
qed

lemma fed_trans:
  assumes "fed a b" and "fed b c"
  shows "fed a c"
proof -
  from assms obtain vs ws where vs: "same_values b (fold track vs a)"
    and ws: "same_values c (fold track ws b)"
    by (auto simp: fed_def)
  from fold_track_same [OF vs, of ws]
  have "same_values (fold track ws b) (fold track (vs @ ws) a)" by simp
  with ws have "same_values c (fold track (vs @ ws) a)" by (simp add: same_values_def)
  then show ?thesis unfolding fed_def by blast
qed

lemma fed_critical: "fed a (b\<lparr>critical := c\<rparr>) = fed a b"
  by (simp add: fed_def same_values_def)

lemma series_step_refl: "series_ok a \<Longrightarrow> series_step a a"
  by (auto simp: series_step_def min_kept_def max_kept_def fed_refl split: option.splits)

lemma series_step_trans: "series_step a b \<Longrightarrow> series_step b c \<Longrightarrow> series_step a c"
  by (auto simp: series_step_def min_kept_def max_kept_def split: option.splits
      intro: fed_trans)

lemma series_step_ok: "series_step a b \<Longrightarrow> series_ok b"
  by (simp add: series_step_def)

lemma track_step: "series_ok a \<Longrightarrow> series_step a (track v a)"
  by (auto simp: series_step_def series_ok_def min_kept_def max_kept_def track_def
      fed_track [unfolded track_def] split: option.splits)

lemma series_step_critical: "series_step a (b\<lparr>critical := c\<rparr>) = series_step a b"
  by (simp add: series_step_def series_ok_def min_kept_def max_kept_def fed_critical
      split: option.splits)

lemma track_crit_step: "series_ok a \<Longrightarrow> series_step a (track_crit tc a)"
  by (simp add: track_crit_def Let_def series_step_critical track_step)

lemma state_step_refl: "state_ok s \<Longrightarrow> state_step s s"
  by (simp add: state_ok_def state_step_def series_step_refl)

lemma state_step_trans: "state_step s t \<Longrightarrow> state_step t u \<Longrightarrow> state_step s u"
  unfolding state_step_def by (blast intro: series_step_trans)

lemma state_step_ok: "state_step s t \<Longrightarrow> state_ok t"
  by (simp add: state_ok_def state_step_def series_step_def)

lemma and_then_step:
  assumes "state_step s (fst r)" and "\<And>t. state_ok t \<Longrightarrow> state_step t (fst (f t))"
  shows "state_step s (fst (and_then r f))"
proof (cases r)
  case (Pair t err)
  show ?thesis
  proof (cases err)
    case None
    with Pair assms(1) have "state_step s t" by simp
    moreover from this have "state_step t (fst (f t))" by (rule assms(2) [OF state_step_ok])
    ultimately show ?thesis using Pair None by (simp add: and_then_def state_step_trans)
  next
    case (Some e)
    with Pair assms(1) show ?thesis by (simp add: and_then_def)
  qed
qed

lemma update_cpu_temps_step: "state_ok s \<Longrightarrow> state_step s (fst (update_cpu_temps e s))"
  by (auto simp: update_cpu_temps_def state_ok_def state_step_def series_step_refl track_step
      series_step_trans Let_def split: sum.splits option.splits)

lemma update_cpu_clock_step: "state_ok s \<Longrightarrow> state_step s (fst (update_cpu_clock e s))"
  by (auto simp: update_cpu_clock_def apply_cpu_clock_def state_ok_def state_step_def series_step_refl track_step
      split: sum.splits)

lemma update_gpu_dir_step: "state_ok s \<Longrightarrow> state_step s (update_gpu_dir gpu s)"
  by (auto simp: update_gpu_dir_def state_ok_def state_step_def series_step_refl track_crit_step
      Let_def split: option.splits)

lemma update_gpu_temps_step: "state_ok s \<Longrightarrow> state_step s (fst (update_gpu_temps paths s))"
proof (induction paths arbitrary: s)
  case Nil
  then show ?case by (simp add: state_step_refl)
next
  case (Cons path paths)
  show ?case
  proof (cases "read_hwmon path")
    case (Inl err)
    with Cons.prems show ?thesis by (simp add: state_step_refl)
  next
    case (Inr gpu)
    have a: "state_step s (update_gpu_dir gpu s)"
      using Cons.prems by (rule update_gpu_dir_step)
    have "state_step (update_gpu_dir gpu s) (fst (update_gpu_temps paths (update_gpu_dir gpu s)))"
      by (rule Cons.IH [OF state_step_ok [OF a]])
    with a Inr show ?thesis by (simp add: state_step_trans)
  qed
qed

lemma update_gpu_clocks_step: "state_ok s \<Longrightarrow> state_step s (fst (update_gpu_clocks e s))"
  by (auto simp: update_gpu_clocks_def apply_gpu_clocks_def state_ok_def state_step_def series_step_refl track_step
      Let_def split: sum.splits prod.splits)

lemma update_nvme_step: "state_ok s \<Longrightarrow> state_step s (fst (update_nvme e s))"
  by (auto simp: update_nvme_def state_ok_def state_step_def series_step_refl track_step
      split: sum.splits list.splits)

lemma update_step: "state_ok s \<Longrightarrow> state_step s (fst (update e s))"
  unfolding update_def
  by (intro and_then_step update_cpu_temps_step update_cpu_clock_step update_gpu_temps_step
      update_gpu_clocks_step update_nvme_step)

lemma ticks_step: "state_ok s \<Longrightarrow> state_step s (ticks es s)"
proof (induction es arbitrary: s)
  case Nil
  then show ?case by (simp add: state_step_refl)
next
  case (Cons e es)
  have a: "state_step s (fst (update e s))" using Cons.prems by (rule update_step)
  have "state_step (fst (update e s)) (ticks es (fst (update e s)))"
    by (rule Cons.IH [OF state_step_ok [OF a]])
  with a show ?case by (simp add: state_step_trans)
qed

lemma ticks_append: "ticks (es @ es') s = ticks es' (ticks es s)"
  by (induction es arbitrary: s) simp_all

lemma init_state_ok: "state_ok init_state"
  by (simp add: state_ok_def init_state_def series_ok_def empty_series_def)

lemma track_first:
  "current a = None \<Longrightarrow> smin a = None \<Longrightarrow> smax a = None \<Longrightarrow>
   current (track v a) = Some v \<and> smin (track v a) = Some v \<and> smax (track v a) = Some v"
  by (simp add: track_def)

lemma ex_ticks_cpu_pkg:
  "cpu_pkg (ticks [ex_env, ex_env2] init_state) =
     \<lparr>current = Some 40, smin = Some 40, smax = Some 45, critical = None\<rparr>"
  by code_simp

subsection \<open>The colour of a temperature\<close>

text \<open>
  C2. For every temperature the classifier answers critical (the red colour) exactly when the
  temperature is at least 85, warm (the orange colour) exactly when it is at least 80 and
  below 85, and normal (no colour) otherwise; 85.0 is critical, 84.9 is warm and 79.9 is
  normal.
\<close>

theorem temp_colour_tiers:
  "(temp_colour t = Some ''#c0392b'' \<longleftrightarrow> 85 \<le> t) \<and>
   (temp_colour t = Some ''#f39c12'' \<longleftrightarrow> 80 \<le> t \<and> t < 85) \<and>
   (temp_colour t = None \<longleftrightarrow> t < 80) \<and>
   temp_colour 85.0 = Some ''#c0392b'' \<and>
   temp_colour 84.9 = Some ''#f39c12'' \<and>
   temp_colour 79.9 = None"
  by (auto simp: temp_colour_def)

subsection \<open>The hwmon reader\<close>

lemma file_exists_read_text: "file_exists d n \<Longrightarrow> \<exists>c. read_text d n = Inr c"
  by (cases d) (auto simp: file_exists_def read_text_def map_of_eq_None_iff split: option.splits)

lemma read_int_error: "read_int d n = Inl e \<Longrightarrow> file_exists d n \<Longrightarrow> e = ValueError"
  using file_exists_read_text [of d n]
  by (auto simp: read_int_def int_of_text_def split: sum.splits option.splits)

lemma channels_exist: "p \<in> set (channels d) \<Longrightarrow> file_exists d p"
  by (cases d) (auto simp: channels_def glob_def file_exists_def)

lemma read_crit_error: "read_crit d p = Inl e \<Longrightarrow> e = ValueError"
  by (auto simp: read_crit_def split: if_splits sum.splits dest: read_int_error)

lemma read_crit_result:
  "read_crit d p = Inr c \<Longrightarrow>
   (if file_exists d (crit_file p)
    then \<exists>k. read_int d (crit_file p) = Inr k \<and> c = Some (real_of_int k / 1000)
    else c = None)"
  by (auto simp: read_crit_def split: if_splits sum.splits)

lemma read_hwmon_loop_ok:
  "\<forall>p \<in> set ps. labelled d p \<longrightarrow> numbers_ok d p \<Longrightarrow>
   read_hwmon_loop d ps results = Inr (fold (store d) ps results)"
proof (induction ps arbitrary: results)
  case Nil
  then show ?case by simp
next
  case (Cons p ps)
  show ?case
  proof (cases "labelled d p")
    case False
    with Cons show ?thesis by (simp add: store_def labelled_def)
  next
    case True
    with Cons.prems have ok: "numbers_ok d p" by simp
    obtain l where l: "read_text d (label_file p) = Inr l"
      using True file_exists_read_text by (auto simp: labelled_def)
    obtain v where v: "read_int d p = Inr v"
      using ok by (cases "read_int d p") (auto simp: numbers_ok_def)
    obtain c where c: "read_crit d p = Inr c"
      using ok by (cases "read_crit d p") (auto simp: numbers_ok_def)
    from Cons.prems have "\<forall>p \<in> set ps. labelled d p \<longrightarrow> numbers_ok d p" by simp
    from Cons.IH [OF this] True l v c show ?thesis
      by (simp add: store_def labelled_def label_text_def)
  qed
qed

lemma read_hwmon_loop_bad:
  "p \<in> set ps \<Longrightarrow> labelled d p \<Longrightarrow> \<not> numbers_ok d p \<Longrightarrow> \<forall>p \<in> set ps. file_exists d p \<Longrightarrow>
   read_hwmon_loop d ps results = Inl ValueError"
proof (induction ps arbitrary: results)
  case Nil
  then show ?case by simp
next
  case (Cons q ps)
  show ?case
  proof (cases "labelled d q")
    case False
    with Cons show ?thesis by (auto simp: labelled_def)
  next
    case True
    obtain l where l: "read_text d (label_file q) = Inr l"
      using True file_exists_read_text by (auto simp: labelled_def)
    show ?thesis
    proof (cases "numbers_ok d q")
      case False
      with Cons.prems True l show ?thesis
        by (auto simp: numbers_ok_def labelled_def split: sum.splits
            dest: read_int_error read_crit_error)
    next
      case ok: True
      with Cons.prems have "p \<in> set ps" by auto
      with Cons.IH Cons.prems have "\<And>r. read_hwmon_loop d ps r = Inl ValueError" by simp
      moreover obtain v where "read_int d q = Inr v"
        using ok by (cases "read_int d q") (auto simp: numbers_ok_def)
      moreover obtain c where "read_crit d q = Inr c"
        using ok by (cases "read_crit d q") (auto simp: numbers_ok_def)
      ultimately show ?thesis using True l by (simp add: labelled_def)
    qed
  qed
qed

lemma read_hwmon_cases:
  "read_hwmon d =
     (if hwmon_well_formed d then Inr (fold (store d) (channels d) []) else Inl ValueError)"
proof (cases "hwmon_well_formed d")
  case True
  then show ?thesis
    using read_hwmon_loop_ok [of "channels d" d "[]"]
    by (simp add: hwmon_well_formed_def read_hwmon_def channels_def)
next
  case False
  then obtain p where "p \<in> set (channels d)" "labelled d p" "\<not> numbers_ok d p"
    by (auto simp: hwmon_well_formed_def)
  then have "read_hwmon_loop d (channels d) [] = Inl ValueError"
    by (rule read_hwmon_loop_bad) (simp add: channels_exist)
  with False show ?thesis by (simp add: read_hwmon_def channels_def)
qed

lemma fold_store_keys:
  "fst ` set (fold (store d) ps results) =
   fst ` set results \<union> {label_text d p | p. p \<in> set ps \<and> labelled d p}"
  by (induction ps arbitrary: results) (auto simp: store_def dom_update)

lemma fold_store_other:
  "\<forall>q \<in> set ps. labelled d q \<longrightarrow> label_text d q \<noteq> k \<Longrightarrow>
   map_of (fold (store d) ps results) k = map_of results k"
  by (induction ps arbitrary: results) (auto simp: store_def update_conv')

lemma fold_store_last:
  assumes "labelled d p" and "\<forall>q \<in> set ys. labelled d q \<longrightarrow> label_text d q \<noteq> label_text d p"
  shows "map_of (fold (store d) (xs @ p # ys) results) (label_text d p) =
         Some (real_of_int (projr (read_int d p)) / 1000, projr (read_crit d p))"
  using assms by (simp add: fold_store_other) (simp add: store_def update_conv')

text \<open>
  The name of the label file: for a value file \<open>temp<N>_input\<close> whose \<open>N\<close> is made of digits,
  the label file is \<open>temp<N>_label\<close> and the critical file \<open>temp<N>_crit\<close>.
\<close>

lemma py_stem_no_dot: "CHR ''.'' \<notin> set n \<Longrightarrow> py_stem n = n"
  by (simp add: py_stem_def dropWhile_eq_Nil_conv)

lemma replace_temp_digits:
  "\<forall>c \<in> set n. digit_val c \<noteq> None \<Longrightarrow>
   py_replace ''temp'' [] (n @ ''_input'') = n @ ''_input''"
proof (induction n)
  case Nil
  show ?case by code_simp
next
  case (Cons c n)
  then have "c \<noteq> CHR ''t''" by (auto simp: digit_val_def)
  with Cons show ?case by (subst py_replace.simps) simp
qed

lemma replace_input_digits:
  "\<forall>c \<in> set n. digit_val c \<noteq> None \<Longrightarrow> py_replace ''_input'' [] (n @ ''_input'') = n"
proof (induction n)
  case Nil
  show ?case by code_simp
next
  case (Cons c n)
  then have "c \<noteq> CHR ''_''" by (auto simp: digit_val_def)
  with Cons show ?case by (subst py_replace.simps) simp
qed

lemma temp_idx_digits:
  assumes "\<forall>c \<in> set n. digit_val c \<noteq> None"
  shows "temp_idx (''temp'' @ n @ ''_input'') = n"
proof -
  have "CHR ''.'' \<notin> set n" using assms by (auto simp: digit_val_def)
  then have "py_stem (''temp'' @ n @ ''_input'') = ''temp'' @ n @ ''_input''"
    by (simp add: py_stem_no_dot)
  moreover have "py_replace ''temp'' [] (''temp'' @ n @ ''_input'') =
      py_replace ''temp'' [] (n @ ''_input'')"
    by (subst py_replace.simps) simp
  ultimately show ?thesis
    using assms by (simp add: temp_idx_def replace_temp_digits replace_input_digits)
qed

lemma channel_files_digits:
  assumes "\<forall>c \<in> set n. digit_val c \<noteq> None"
  shows "match_affix ''temp'' ''_input'' (''temp'' @ n @ ''_input'') \<and>
         label_file (''temp'' @ n @ ''_input'') = ''temp'' @ n @ ''_label'' \<and>
         crit_file (''temp'' @ n @ ''_input'') = ''temp'' @ n @ ''_crit''"
  using temp_idx_digits [OF assms]
  by (simp add: match_affix_def startswith_def endswith_def label_file_def crit_file_def)

lemma ex_cpu_dir_readings:
  "read_hwmon (Some ex_cpu_dir) = Inr [(''Tctl'', 45, None), (''Tccd1'', 51.5, Some 100)]"
  by code_simp

text \<open>
  C3, as the code has it. In a directory whose labelled channels hold well-formed integers,
  \<open>read_hwmon\<close> returns a mapping whose keys are exactly the labels of the channels that have
  both a value file and a label file, so a channel without a label file adds nothing. A label
  is mapped to the reading of the last enumerated channel that carries it: the integer of the
  value file divided by 1000, with the integer of the critical file divided by 1000 when that
  file exists and \<open>None\<close> otherwise.
\<close>

theorem read_hwmon_channels:
  assumes "hwmon_well_formed d"
  shows "\<exists>res. read_hwmon d = Inr res \<and>
     fst ` set res = {label_text d p | p. p \<in> set (channels d) \<and> labelled d p} \<and>
     (\<forall>xs p ys.
        channels d = xs @ p # ys \<and> labelled d p \<and>
        (\<forall>q \<in> set ys. labelled d q \<longrightarrow> label_text d q \<noteq> label_text d p) \<longrightarrow>
        (\<exists>v c. read_int d p = Inr v \<and>
               map_of res (label_text d p) = Some (real_of_int v / 1000, c) \<and>
               (if file_exists d (crit_file p)
                then \<exists>k. read_int d (crit_file p) = Inr k \<and> c = Some (real_of_int k / 1000)
                else c = None)))"
proof -
  let ?res = "fold (store d) (channels d) []"
  have res: "read_hwmon d = Inr ?res"
    using assms by (simp add: read_hwmon_cases)
  have keys: "fst ` set ?res = {label_text d p | p. p \<in> set (channels d) \<and> labelled d p}"
    by (simp add: fold_store_keys)
  have vals: "\<exists>v c. read_int d p = Inr v \<and>
               map_of ?res (label_text d p) = Some (real_of_int v / 1000, c) \<and>
               (if file_exists d (crit_file p)
                then \<exists>k. read_int d (crit_file p) = Inr k \<and> c = Some (real_of_int k / 1000)
                else c = None)"
    if ch: "channels d = xs @ p # ys" and lab: "labelled d p"
      and last: "\<forall>q \<in> set ys. labelled d q \<longrightarrow> label_text d q \<noteq> label_text d p"
    for xs p ys
  proof -
    from ch have "p \<in> set (channels d)" by simp
    with assms lab have ok: "numbers_ok d p" by (simp add: hwmon_well_formed_def)
    obtain v where v: "read_int d p = Inr v"
      using ok by (cases "read_int d p") (auto simp: numbers_ok_def)
    obtain c where c: "read_crit d p = Inr c"
      using ok by (cases "read_crit d p") (auto simp: numbers_ok_def)
    have "map_of ?res (label_text d p) = Some (real_of_int v / 1000, c)"
      using fold_store_last [OF lab last, of xs "[]"] ch v c by simp
    with v read_crit_result [OF c] show ?thesis by blast
  qed
  from res keys vals show ?thesis by blast
qed

theorem read_hwmon_channels_witness:
  "hwmon_well_formed (Some ex_cpu_dir) \<and>
   (\<exists>res. read_hwmon (Some ex_cpu_dir) = Inr res \<and>
      fst ` set res =
        {label_text (Some ex_cpu_dir) p | p.
           p \<in> set (channels (Some ex_cpu_dir)) \<and> labelled (Some ex_cpu_dir) p})"
proof -
  have wf: "hwmon_well_formed (Some ex_cpu_dir)" by code_simp
  from read_hwmon_channels [OF wf] wf show ?thesis by blast
qed

text \<open>
  C3 as it is written fails where two labelled channels share a label: channel 1 of the
  example has a value file holding 30000 and a label file, and the mapping returned has one
  entry, with the value of channel 2.
\<close>

theorem read_hwmon_twin_counterexample:
  "''temp1_input'' \<in> set (channels (Some ex_twin_dir)) \<and>
   labelled (Some ex_twin_dir) ''temp1_input'' \<and>
   read_int (Some ex_twin_dir) ''temp1_input'' = Inr 30000 \<and>
   label_text (Some ex_twin_dir) ''temp1_input'' = ''Sensor'' \<and>
   read_hwmon (Some ex_twin_dir) = Inr [(''Sensor'', 35, None)]"
  by code_simp

text \<open>
  C4, as the code has it. For a directory that is missing or cannot be listed \<open>read_hwmon\<close>
  returns the empty mapping. For a directory in which a channel with a label file holds a
  malformed number, in its value file or in its critical file, the call raises and returns
  no mapping: the read is aborted as a whole and the readings of the other channels are not
  returned.
\<close>

theorem read_hwmon_malformed_aborts:
  "read_hwmon None = Inr [] \<and>
   (p \<in> set (channels d) \<and> labelled d p \<and> \<not> numbers_ok d p \<longrightarrow> isl (read_hwmon d))"
proof -
  have "read_hwmon None = Inr []" by (simp add: read_hwmon_def glob_def)
  moreover have "isl (read_hwmon d)"
    if "p \<in> set (channels d)" "labelled d p" "\<not> numbers_ok d p"
  proof -
    from that have "\<not> hwmon_well_formed d" by (auto simp: hwmon_well_formed_def)
    then show ?thesis by (simp add: read_hwmon_cases)
  qed
  ultimately show ?thesis by blast
qed

theorem read_hwmon_malformed_aborts_witness:
  "''temp3_input'' \<in> set (channels (Some ex_bad_dir)) \<and>
   labelled (Some ex_bad_dir) ''temp3_input'' \<and>
   \<not> numbers_ok (Some ex_bad_dir) ''temp3_input'' \<and>
   isl (read_hwmon (Some ex_bad_dir)) \<and>
   read_hwmon None = Inr []"
proof -
  have h: "''temp3_input'' \<in> set (channels (Some ex_bad_dir))"
    "labelled (Some ex_bad_dir) ''temp3_input''"
    "\<not> numbers_ok (Some ex_bad_dir) ''temp3_input''"
    by code_simp+
  with read_hwmon_malformed_aborts [of "''temp3_input''" "Some ex_bad_dir"] show ?thesis
    by blast
qed

text \<open>
  C4 as it is written fails on a directory with one good and one malformed labelled channel:
  the call raises, the reading of the good channel is not returned.
\<close>

theorem read_hwmon_malformed_counterexample:
  "read_int (Some ex_bad_dir) ''temp1_input'' = Inr 45000 \<and>
   labelled (Some ex_bad_dir) ''temp1_input'' \<and>
   read_int (Some ex_bad_dir) ''temp3_input'' = Inl ValueError \<and>
   read_hwmon (Some ex_bad_dir) = Inl ValueError"
  by code_simp

subsection \<open>The clock and fan readers\<close>

lemma read_cpu_clock_loop_ok:
  "\<forall>t \<in> set (List.map_filter snd cs). \<not> isl (int_of_text t) \<Longrightarrow>
   read_cpu_clock_loop cs freqs = Inr (freqs @ map ghz (List.map_filter snd cs))"
proof (induction cs arbitrary: freqs)
  case Nil
  show ?case by (simp add: map_filter_simps)
next
  case (Cons a cs)
  obtain n f where a: "a = (n, f)" by (cases a)
  show ?case
  proof (cases f)
    case None
    with Cons a show ?thesis by (simp add: map_filter_simps)
  next
    case (Some t)
    with Cons.prems a obtain v where v: "int_of_text t = Inr v"
      by (cases "int_of_text t") (auto simp: map_filter_simps)
    from Cons.prems a Some have "\<forall>t \<in> set (List.map_filter snd cs). \<not> isl (int_of_text t)"
      by (simp add: map_filter_simps)
    from Cons.IH [OF this] a Some v show ?thesis
      by (simp add: map_filter_simps ghz_def)
  qed
qed

lemma int_of_text_error: "int_of_text t = Inl e \<Longrightarrow> e = ValueError"
  by (auto simp: int_of_text_def split: option.splits)

lemma read_cpu_clock_loop_bad:
  "\<exists>t \<in> set (List.map_filter snd cs). isl (int_of_text t) \<Longrightarrow>
   read_cpu_clock_loop cs freqs = Inl ValueError"
proof (induction cs arbitrary: freqs)
  case Nil
  then show ?case by (simp add: map_filter_simps)
next
  case (Cons a cs)
  obtain n f where a: "a = (n, f)" by (cases a)
  show ?case
  proof (cases f)
    case None
    with Cons a show ?thesis by (simp add: map_filter_simps)
  next
    case (Some t)
    show ?thesis
    proof (cases "int_of_text t")
      case (Inl err)
      with a Some int_of_text_error [OF Inl] show ?thesis by simp
    next
      case (Inr v)
      with Cons.prems a Some have "\<exists>t \<in> set (List.map_filter snd cs). isl (int_of_text t)"
        by (auto simp: map_filter_simps)
      from Cons.IH [OF this] a Some Inr show ?thesis by simp
    qed
  qed
qed

lemma read_cpu_clock_cases:
  "read_cpu_clock e =
     (if \<forall>t \<in> set (present_freqs e). \<not> isl (int_of_text t)
      then Inr (if present_freqs e = [] then None
                else Some (sum_list (map ghz (present_freqs e)) / real (length (present_freqs e))))
      else Inl ValueError)"
proof (cases "\<forall>t \<in> set (present_freqs e). \<not> isl (int_of_text t)")
  case True
  then show ?thesis
    using read_cpu_clock_loop_ok [of "filter (\<lambda>(n, f). match_cpu n) (sys_cpu e)" "[]"]
    by (simp add: read_cpu_clock_def present_freqs_def)
next
  case False
  then show ?thesis
    using read_cpu_clock_loop_bad [of "filter (\<lambda>(n, f). match_cpu n) (sys_cpu e)" "[]"]
    by (simp add: read_cpu_clock_def present_freqs_def)
qed

text \<open>
  C7. \<open>read_cpu_clock\<close> returns the arithmetic mean of the current frequencies of the cores
  whose frequency file is present, each converted from kHz to GHz; entries without the file
  are skipped; when no file is present the result is \<open>None\<close>, not zero. (A present file that
  holds no integer makes the call raise \<open>ValueError\<close>.)
\<close>

theorem read_cpu_clock_mean:
  "read_cpu_clock e =
     (if \<forall>t \<in> set (present_freqs e). \<not> isl (int_of_text t)
      then Inr (if present_freqs e = [] then None
                else Some (sum_list (map ghz (present_freqs e)) / real (length (present_freqs e))))
      else Inl ValueError)"
  by (rule read_cpu_clock_cases)

theorem read_cpu_clock_mean_witness:
  "list_all (\<lambda>t. \<not> isl (int_of_text t)) (present_freqs ex_env) \<and>
   present_freqs ex_env = [''3000000'', ''4000000''] \<and>
   read_cpu_clock ex_env = Inr (Some 3.5) \<and>
   read_cpu_clock (ex_env\<lparr>sys_cpu := [(''cpu0'', None), (''cpufreq'', Some ''1'')]\<rparr>) = Inr None"
proof -
  have p: "present_freqs ex_env = [''3000000'', ''4000000'']" by code_simp
  have g: "ghz ''3000000'' = 3" "ghz ''4000000'' = 4" by code_simp+
  have ok: "\<forall>t \<in> set (present_freqs ex_env). \<not> isl (int_of_text t)" by code_simp
  have q: "present_freqs (ex_env\<lparr>sys_cpu := [(''cpu0'', None), (''cpufreq'', Some ''1'')]\<rparr>) = []"
    by code_simp
  from read_cpu_clock_mean [of ex_env]
    read_cpu_clock_mean [of "ex_env\<lparr>sys_cpu := [(''cpu0'', None), (''cpufreq'', Some ''1'')]\<rparr>"]
    ok p g q show ?thesis by (simp add: list_all_iff)
qed

lemma gpu_freq_loop_ok:
  "\<forall>p \<in> set ps. \<not> isl (read_int h p) \<Longrightarrow>
   gpu_freq_loop h ps core =
     Inr (core @ map (\<lambda>v. real_of_int v / 1000000) (filter (\<lambda>v. v > 0) (map (int_in h) ps)))"
proof (induction ps arbitrary: core)
  case Nil
  show ?case by simp
next
  case (Cons p ps)
  then obtain v where v: "read_int h p = Inr v" by (cases "read_int h p") auto
  from Cons have "\<forall>p \<in> set ps. \<not> isl (read_int h p)" by simp
  from Cons.IH [OF this] v show ?case by (simp add: int_in_def)
qed

lemma last_with_Cons:
  "last_with slot (h # hs) =
     (case last_with slot hs of
        Some x \<Rightarrow> Some x
      | None \<Rightarrow> if file_exists h slot then Some h else None)"
  by (auto simp: last_with_def split: list.splits)

lemma freq2_in_freq_files: "file_exists h ''freq2_input'' \<Longrightarrow> ''freq2_input'' \<in> set (freq_files h)"
  by (cases h) (auto simp: file_exists_def freq_files_def glob_def match_affix_def startswith_def endswith_def)

lemma gpu_dirs_loop_ok:
  "gpu_well_formed hs \<Longrightarrow>
   gpu_dirs_loop hs (core, mem, fan) =
     Inr (core @ core_readings hs,
          (case last_with ''freq2_input'' hs of
             None \<Rightarrow> mem
           | Some h \<Rightarrow> Some (real_of_int (int_in h ''freq2_input'') / 1000000)),
          (case last_with ''fan1_input'' hs of
             None \<Rightarrow> fan
           | Some h \<Rightarrow> Some (int_in h ''fan1_input'')))"
proof (induction hs arbitrary: core mem fan)
  case Nil
  show ?case by (simp add: core_readings_def last_with_def)
next
  case (Cons h hs)
  from Cons.prems have wf: "gpu_well_formed hs"
    and fr: "\<forall>p \<in> set (freq_files h). \<not> isl (read_int h p)"
    and fn: "file_exists h ''fan1_input'' \<longrightarrow> \<not> isl (read_int h ''fan1_input'')"
    by (simp_all add: gpu_well_formed_def)
  have f: "read_fan h fan =
      Inr (if file_exists h ''fan1_input'' then Some (int_in h ''fan1_input'') else fan)"
    using fn by (cases "read_int h ''fan1_input''") (auto simp: read_fan_def int_in_def)
  have m: "read_mem_clock h mem =
      Inr (if file_exists h ''freq2_input''
           then Some (real_of_int (int_in h ''freq2_input'') / 1000000) else mem)"
  proof (cases "file_exists h ''freq2_input''")
    case True
    with fr freq2_in_freq_files [of h] have "\<not> isl (read_int h ''freq2_input'')" by blast
    with True show ?thesis
      by (cases "read_int h ''freq2_input''") (auto simp: read_mem_clock_def int_in_def)
  next
    case False
    then show ?thesis by (simp add: read_mem_clock_def)
  qed
  show ?case
    using gpu_freq_loop_ok [OF fr, of core] f m Cons.IH [OF wf]
    by (simp add: freq_files_def [symmetric] core_readings_def last_with_Cons split: option.splits)
qed

lemma py_max_Max: "xs \<noteq> [] \<Longrightarrow> py_max xs = Max (set xs)"
proof (cases xs)
  case Nil
  assume "xs \<noteq> []"
  with Nil show ?thesis by simp
next
  case (Cons a list)
  have "Max (set (a # list)) = fold max list a" by (rule Max.set_eq_fold)
  with Cons show ?thesis by (simp add: py_max_def)
qed

text \<open>
  C8. When every frequency file and fan file of the configured GPU directories holds an
  integer, \<open>read_gpu_clocks_and_fan\<close> returns as core clock the maximum of the strictly
  positive readings of all frequency channels of all directories, converted from Hz to MHz
  (\<open>None\<close> when there is no positive reading, so a channel reading zero is left out), as
  memory clock the value of \<open>freq2_input\<close> in the last directory that has this file, and as
  fan speed the value of \<open>fan1_input\<close> in the last directory that has that file.
\<close>

theorem read_gpu_clocks_and_fan_result:
  assumes "gpu_well_formed (gpu_hwmons e)"
  shows "read_gpu_clocks_and_fan e =
     Inr (if core_readings (gpu_hwmons e) = [] then None
          else Some (Max (set (core_readings (gpu_hwmons e)))),
          map_option (\<lambda>h. real_of_int (int_in h ''freq2_input'') / 1000000)
            (last_with ''freq2_input'' (gpu_hwmons e)),
          map_option (\<lambda>h. int_in h ''fan1_input'') (last_with ''fan1_input'' (gpu_hwmons e)))"
  using gpu_dirs_loop_ok [OF assms, of "[]" None None]
  by (simp add: read_gpu_clocks_and_fan_def py_max_Max split: option.splits)

theorem read_gpu_clocks_and_fan_result_witness:
  "gpu_well_formed (gpu_hwmons ex_gpu_env) \<and>
   read_gpu_clocks_and_fan ex_gpu_env = Inr (Some 2100, Some 96, Some 1200)"
proof -
  have wf: "gpu_well_formed (gpu_hwmons ex_gpu_env)" by code_simp
  have c: "core_readings (gpu_hwmons ex_gpu_env) = [2100, 96, 300]" by code_simp
  have m: "map_option (\<lambda>h. real_of_int (int_in h ''freq2_input'') / 1000000)
            (last_with ''freq2_input'' (gpu_hwmons ex_gpu_env)) = Some 96" by code_simp
  have f: "map_option (\<lambda>h. int_in h ''fan1_input'')
            (last_with ''fan1_input'' (gpu_hwmons ex_gpu_env)) = Some 1200" by code_simp
  from read_gpu_clocks_and_fan_result [OF wf] wf c m f show ?thesis by simp
qed

subsection \<open>What a tick leaves unchanged\<close>

lemma and_then_keeps:
  assumes "P (fst r)" and "\<And>t. P t \<Longrightarrow> P (fst (f t))"
  shows "P (fst (and_then r f))"
proof (cases r)
  case (Pair t err)
  with assms show ?thesis by (cases err) (simp_all add: and_then_def)
qed

lemma update_gpu_dir_frame:
  "cpu_pkg (update_gpu_dir gpu s) = cpu_pkg s \<and> cpu_die (update_gpu_dir gpu s) = cpu_die s \<and>
   cpu_clk (update_gpu_dir gpu s) = cpu_clk s \<and> gpu_clk (update_gpu_dir gpu s) = gpu_clk s \<and>
   gpu_memclk (update_gpu_dir gpu s) = gpu_memclk s \<and> gpu_fan (update_gpu_dir gpu s) = gpu_fan s \<and>
   nvme (update_gpu_dir gpu s) = nvme s \<and>
   (map_of gpu ''edge'' = None \<longrightarrow> gpu_temp (update_gpu_dir gpu s) = gpu_temp s) \<and>
   (map_of gpu ''junction'' = None \<longrightarrow> gpu_hot (update_gpu_dir gpu s) = gpu_hot s) \<and>
   (map_of gpu ''mem'' = None \<longrightarrow> gpu_mem (update_gpu_dir gpu s) = gpu_mem s)"
  by (simp add: update_gpu_dir_def Let_def split: option.splits)

lemma update_gpu_temps_others:
  "P (cpu_pkg s) (cpu_die s) (cpu_clk s) (gpu_clk s) (gpu_memclk s) (gpu_fan s) (nvme s) \<Longrightarrow>
   (let t = fst (update_gpu_temps paths s) in
    P (cpu_pkg t) (cpu_die t) (cpu_clk t) (gpu_clk t) (gpu_memclk t) (gpu_fan t) (nvme t))"
proof (induction paths arbitrary: s)
  case Nil
  then show ?case by simp
next
  case (Cons path paths)
  show ?case
  proof (cases "read_hwmon path")
    case (Inl err)
    with Cons.prems show ?thesis by simp
  next
    case (Inr gpu)
    from Cons.prems have "P (cpu_pkg (update_gpu_dir gpu s)) (cpu_die (update_gpu_dir gpu s))
      (cpu_clk (update_gpu_dir gpu s)) (gpu_clk (update_gpu_dir gpu s))
      (gpu_memclk (update_gpu_dir gpu s)) (gpu_fan (update_gpu_dir gpu s))
      (nvme (update_gpu_dir gpu s))"
      by (simp add: update_gpu_dir_frame)
    from Cons.IH [OF this] Inr show ?thesis by simp
  qed
qed

lemma update_gpu_temps_key:
  assumes "\<forall>h \<in> set paths. \<not> supplies h k"
    and "\<And>gpu t. map_of gpu k = None \<Longrightarrow> sel (update_gpu_dir gpu t) = sel t"
  shows "sel (fst (update_gpu_temps paths s)) = sel s"
  using assms(1)
proof (induction paths arbitrary: s)
  case Nil
  show ?case by simp
next
  case (Cons path paths)
  show ?case
  proof (cases "read_hwmon path")
    case (Inl err)
    then show ?thesis by simp
  next
    case (Inr gpu)
    with Cons.prems have "map_of gpu k = None"
      by (cases "map_of gpu k") (auto simp: supplies_def)
    then have "sel (update_gpu_dir gpu s) = sel s" by (rule assms(2))
    moreover from Cons.prems have "\<forall>h \<in> set paths. \<not> supplies h k" by simp
    ultimately show ?thesis using Cons.IH [of "update_gpu_dir gpu s"] Inr by simp
  qed
qed


lemma update_cpu_temps_frame:
  "cpu_clk (fst (update_cpu_temps e s)) = cpu_clk s \<and>
   gpu_temp (fst (update_cpu_temps e s)) = gpu_temp s \<and>
   gpu_hot (fst (update_cpu_temps e s)) = gpu_hot s \<and>
   gpu_mem (fst (update_cpu_temps e s)) = gpu_mem s \<and>
   gpu_clk (fst (update_cpu_temps e s)) = gpu_clk s \<and>
   gpu_memclk (fst (update_cpu_temps e s)) = gpu_memclk s \<and>
   gpu_fan (fst (update_cpu_temps e s)) = gpu_fan s \<and>
   nvme (fst (update_cpu_temps e s)) = nvme s \<and>
   (\<not> supplies (cpu_hwmon e) ''Tctl'' \<longrightarrow> cpu_pkg (fst (update_cpu_temps e s)) = cpu_pkg s) \<and>
   (\<not> supplies (cpu_hwmon e) ''Tccd1'' \<longrightarrow> cpu_die (fst (update_cpu_temps e s)) = cpu_die s)"
  by (auto simp: update_cpu_temps_def supplies_def Let_def split: sum.splits option.splits)

lemma update_cpu_clock_frame:
  "cpu_pkg (fst (update_cpu_clock e s)) = cpu_pkg s \<and>
   cpu_die (fst (update_cpu_clock e s)) = cpu_die s \<and>
   gpu_temp (fst (update_cpu_clock e s)) = gpu_temp s \<and>
   gpu_hot (fst (update_cpu_clock e s)) = gpu_hot s \<and>
   gpu_mem (fst (update_cpu_clock e s)) = gpu_mem s \<and>
   gpu_clk (fst (update_cpu_clock e s)) = gpu_clk s \<and>
   gpu_memclk (fst (update_cpu_clock e s)) = gpu_memclk s \<and>
   gpu_fan (fst (update_cpu_clock e s)) = gpu_fan s \<and>
   nvme (fst (update_cpu_clock e s)) = nvme s \<and>
   (read_cpu_clock e = Inr None \<or> read_cpu_clock e = Inr (Some 0) \<longrightarrow>
      cpu_clk (fst (update_cpu_clock e s)) = cpu_clk s)"
  by (auto simp: update_cpu_clock_def apply_cpu_clock_def truthy_def split: sum.splits)

lemma update_gpu_clocks_frame:
  "cpu_pkg (fst (update_gpu_clocks e s)) = cpu_pkg s \<and>
   cpu_die (fst (update_gpu_clocks e s)) = cpu_die s \<and>
   cpu_clk (fst (update_gpu_clocks e s)) = cpu_clk s \<and>
   gpu_temp (fst (update_gpu_clocks e s)) = gpu_temp s \<and>
   gpu_hot (fst (update_gpu_clocks e s)) = gpu_hot s \<and>
   gpu_mem (fst (update_gpu_clocks e s)) = gpu_mem s \<and>
   nvme (fst (update_gpu_clocks e s)) = nvme s \<and>
   (read_gpu_clocks_and_fan e = Inr (gclk, gmemclk, gfan) \<longrightarrow>
      (gclk = None \<or> gclk = Some 0 \<longrightarrow> gpu_clk (fst (update_gpu_clocks e s)) = gpu_clk s) \<and>
      (gmemclk = None \<or> gmemclk = Some 0 \<longrightarrow>
         gpu_memclk (fst (update_gpu_clocks e s)) = gpu_memclk s) \<and>
      (gfan = None \<longrightarrow> gpu_fan (fst (update_gpu_clocks e s)) = gpu_fan s))"
  by (auto simp: update_gpu_clocks_def apply_gpu_clocks_def truthy_def Let_def split: sum.splits prod.splits)

lemma update_nvme_frame:
  "cpu_pkg (fst (update_nvme e s)) = cpu_pkg s \<and>
   cpu_die (fst (update_nvme e s)) = cpu_die s \<and>
   cpu_clk (fst (update_nvme e s)) = cpu_clk s \<and>
   gpu_temp (fst (update_nvme e s)) = gpu_temp s \<and>
   gpu_hot (fst (update_nvme e s)) = gpu_hot s \<and>
   gpu_mem (fst (update_nvme e s)) = gpu_mem s \<and>
   gpu_clk (fst (update_nvme e s)) = gpu_clk s \<and>
   gpu_memclk (fst (update_nvme e s)) = gpu_memclk s \<and>
   gpu_fan (fst (update_nvme e s)) = gpu_fan s \<and>
   (read_hwmon (nvme_hwmon e) = Inr [] \<longrightarrow> nvme (fst (update_nvme e s)) = nvme s)"
  by (auto simp: update_nvme_def split: sum.splits list.splits)

lemma update_gpu_temps_frame:
  "cpu_pkg (fst (update_gpu_temps paths s)) = cpu_pkg s \<and>
   cpu_die (fst (update_gpu_temps paths s)) = cpu_die s \<and>
   cpu_clk (fst (update_gpu_temps paths s)) = cpu_clk s \<and>
   gpu_clk (fst (update_gpu_temps paths s)) = gpu_clk s \<and>
   gpu_memclk (fst (update_gpu_temps paths s)) = gpu_memclk s \<and>
   gpu_fan (fst (update_gpu_temps paths s)) = gpu_fan s \<and>
   nvme (fst (update_gpu_temps paths s)) = nvme s"
  using update_gpu_temps_others
    [of "\<lambda>a b c d e f g. a = cpu_pkg s \<and> b = cpu_die s \<and> c = cpu_clk s \<and> d = gpu_clk s \<and>
           e = gpu_memclk s \<and> f = gpu_fan s \<and> g = nvme s" s paths]
  by (simp add: Let_def)

lemma update_keeps:
  assumes "\<And>t. P (sel t) \<Longrightarrow> P (sel (fst (update_cpu_temps e t)))"
    and "\<And>t. P (sel t) \<Longrightarrow> P (sel (fst (update_cpu_clock e t)))"
    and "\<And>t. P (sel t) \<Longrightarrow> P (sel (fst (update_gpu_temps (gpu_hwmons e) t)))"
    and "\<And>t. P (sel t) \<Longrightarrow> P (sel (fst (update_gpu_clocks e t)))"
    and "\<And>t. P (sel t) \<Longrightarrow> P (sel (fst (update_nvme e t)))"
    and "P (sel s)"
  shows "P (sel (fst (update e s)))"
  unfolding update_def
  by (intro and_then_keeps [where P = "\<lambda>t. P (sel t)"] assms)

lemma ex_partial_tick:
  "cpu_die (fst (update ex_env2 (ticks [ex_env] init_state))) = cpu_die (ticks [ex_env] init_state) \<and>
   cpu_die (ticks [ex_env] init_state) =
     \<lparr>current = Some 51.5, smin = Some 51.5, smax = Some 51.5, critical = None\<rparr> \<and>
   gpu_temp (fst (update ex_env2 (ticks [ex_env] init_state))) =
     \<lparr>current = Some 60, smin = Some 60, smax = Some 60, critical = Some 100\<rparr> \<and>
   snd (update ex_env2 (ticks [ex_env] init_state)) = None"
  by code_simp

text \<open>
  C9. On a tick where the source of a metric is absent, \<open>update\<close> leaves the series of that
  metric exactly as it was: a temperature whose key is not in the mapping \<open>read_hwmon\<close>
  returns (for a GPU temperature: not in the mapping of any configured GPU directory), a
  clock or fan speed for which the reader returns \<open>None\<close>, the NVMe temperature when the
  mapping is empty. A GPU directory that does not exist supplies no key, and the pass of the
  loop for it changes nothing and raises nothing.
\<close>

theorem update_absent_source_unchanged:
  "(\<not> supplies (cpu_hwmon e) ''Tctl'' \<longrightarrow> cpu_pkg (fst (update e s)) = cpu_pkg s) \<and>
   (\<not> supplies (cpu_hwmon e) ''Tccd1'' \<longrightarrow> cpu_die (fst (update e s)) = cpu_die s) \<and>
   (read_cpu_clock e = Inr None \<longrightarrow> cpu_clk (fst (update e s)) = cpu_clk s) \<and>
   ((\<forall>h \<in> set (gpu_hwmons e). \<not> supplies h ''edge'') \<longrightarrow>
      gpu_temp (fst (update e s)) = gpu_temp s) \<and>
   ((\<forall>h \<in> set (gpu_hwmons e). \<not> supplies h ''junction'') \<longrightarrow>
      gpu_hot (fst (update e s)) = gpu_hot s) \<and>
   ((\<forall>h \<in> set (gpu_hwmons e). \<not> supplies h ''mem'') \<longrightarrow>
      gpu_mem (fst (update e s)) = gpu_mem s) \<and>
   (read_gpu_clocks_and_fan e = Inr (None, m1, f1) \<longrightarrow> gpu_clk (fst (update e s)) = gpu_clk s) \<and>
   (read_gpu_clocks_and_fan e = Inr (c2, None, f2) \<longrightarrow>
      gpu_memclk (fst (update e s)) = gpu_memclk s) \<and>
   (read_gpu_clocks_and_fan e = Inr (c3, m3, None) \<longrightarrow> gpu_fan (fst (update e s)) = gpu_fan s) \<and>
   (read_hwmon (nvme_hwmon e) = Inr [] \<longrightarrow> nvme (fst (update e s)) = nvme s) \<and>
   \<not> supplies None k \<and>
   update_gpu_temps (None # paths) s = update_gpu_temps paths s"
proof -
  note frames = update_cpu_temps_frame update_cpu_clock_frame update_gpu_temps_frame
    update_gpu_clocks_frame update_nvme_frame
  have none: "read_hwmon None = Inr []" by (simp add: read_hwmon_def glob_def)
  have 1: "cpu_pkg (fst (update e s)) = cpu_pkg s" if "\<not> supplies (cpu_hwmon e) ''Tctl''"
    by (rule update_keeps [where P = "\<lambda>x. x = cpu_pkg s" and sel = cpu_pkg])
      (simp_all add: frames that)
  have 2: "cpu_die (fst (update e s)) = cpu_die s" if "\<not> supplies (cpu_hwmon e) ''Tccd1''"
    by (rule update_keeps [where P = "\<lambda>x. x = cpu_die s" and sel = cpu_die])
      (simp_all add: frames that)
  have 3: "cpu_clk (fst (update e s)) = cpu_clk s" if "read_cpu_clock e = Inr None"
    by (rule update_keeps [where P = "\<lambda>x. x = cpu_clk s" and sel = cpu_clk])
      (simp_all add: frames that)
  have 4: "gpu_temp (fst (update e s)) = gpu_temp s"
    if "\<forall>h \<in> set (gpu_hwmons e). \<not> supplies h ''edge''"
    by (rule update_keeps [where P = "\<lambda>x. x = gpu_temp s" and sel = gpu_temp])
      (simp_all add: frames that update_gpu_temps_key [where k = "''edge''"] update_gpu_dir_frame)
  have 5: "gpu_hot (fst (update e s)) = gpu_hot s"
    if "\<forall>h \<in> set (gpu_hwmons e). \<not> supplies h ''junction''"
    by (rule update_keeps [where P = "\<lambda>x. x = gpu_hot s" and sel = gpu_hot])
      (simp_all add: frames that update_gpu_temps_key [where k = "''junction''"]
        update_gpu_dir_frame)
  have 6: "gpu_mem (fst (update e s)) = gpu_mem s"
    if "\<forall>h \<in> set (gpu_hwmons e). \<not> supplies h ''mem''"
    by (rule update_keeps [where P = "\<lambda>x. x = gpu_mem s" and sel = gpu_mem])
      (simp_all add: frames that update_gpu_temps_key [where k = "''mem''"] update_gpu_dir_frame)
  have 7: "gpu_clk (fst (update e s)) = gpu_clk s"
    if "read_gpu_clocks_and_fan e = Inr (None, m1, f1)"
    by (rule update_keeps [where P = "\<lambda>x. x = gpu_clk s" and sel = gpu_clk])
      (simp_all add: frames update_gpu_clocks_frame [of e _ None m1 f1] that)
  have 8: "gpu_memclk (fst (update e s)) = gpu_memclk s"
    if "read_gpu_clocks_and_fan e = Inr (c2, None, f2)"
    by (rule update_keeps [where P = "\<lambda>x. x = gpu_memclk s" and sel = gpu_memclk])
      (simp_all add: frames update_gpu_clocks_frame [of e _ c2 None f2] that)
  have 9: "gpu_fan (fst (update e s)) = gpu_fan s"
    if "read_gpu_clocks_and_fan e = Inr (c3, m3, None)"
    by (rule update_keeps [where P = "\<lambda>x. x = gpu_fan s" and sel = gpu_fan])
      (simp_all add: frames update_gpu_clocks_frame [of e _ c3 m3 None] that)
  have 10: "nvme (fst (update e s)) = nvme s" if "read_hwmon (nvme_hwmon e) = Inr []"
    by (rule update_keeps [where P = "\<lambda>x. x = nvme s" and sel = nvme])
      (simp_all add: frames that)
  have 11: "\<not> supplies None k" by (simp add: supplies_def none)
  have 12: "update_gpu_temps (None # paths) s = update_gpu_temps paths s"
    by (simp add: none update_gpu_dir_def)
  from 1 2 3 4 5 6 7 8 9 10 11 12 show ?thesis by blast
qed

theorem update_absent_source_unchanged_witness:
  "\<not> supplies (cpu_hwmon ex_bare_env) ''Tctl'' \<and>
   \<not> supplies (cpu_hwmon ex_bare_env) ''Tccd1'' \<and>
   read_cpu_clock ex_bare_env = Inr None \<and>
   list_all (\<lambda>h. \<not> supplies h ''edge'') (gpu_hwmons ex_bare_env) \<and>
   list_all (\<lambda>h. \<not> supplies h ''junction'') (gpu_hwmons ex_bare_env) \<and>
   list_all (\<lambda>h. \<not> supplies h ''mem'') (gpu_hwmons ex_bare_env) \<and>
   read_gpu_clocks_and_fan ex_bare_env = Inr (None, None, None) \<and>
   read_hwmon (nvme_hwmon ex_bare_env) = Inr [] \<and>
   cpu_pkg (fst (update ex_bare_env (ticks [ex_env] init_state))) = cpu_pkg (ticks [ex_env] init_state) \<and>
   cpu_die (fst (update ex_bare_env (ticks [ex_env] init_state))) = cpu_die (ticks [ex_env] init_state) \<and>
   cpu_clk (fst (update ex_bare_env (ticks [ex_env] init_state))) = cpu_clk (ticks [ex_env] init_state) \<and>
   gpu_temp (fst (update ex_bare_env (ticks [ex_env] init_state))) = gpu_temp (ticks [ex_env] init_state) \<and>
   gpu_hot (fst (update ex_bare_env (ticks [ex_env] init_state))) = gpu_hot (ticks [ex_env] init_state) \<and>
   gpu_mem (fst (update ex_bare_env (ticks [ex_env] init_state))) = gpu_mem (ticks [ex_env] init_state) \<and>
   gpu_clk (fst (update ex_bare_env (ticks [ex_env] init_state))) = gpu_clk (ticks [ex_env] init_state) \<and>
   gpu_memclk (fst (update ex_bare_env (ticks [ex_env] init_state))) =
     gpu_memclk (ticks [ex_env] init_state) \<and>
   gpu_fan (fst (update ex_bare_env (ticks [ex_env] init_state))) = gpu_fan (ticks [ex_env] init_state) \<and>
   nvme (fst (update ex_bare_env (ticks [ex_env] init_state))) = nvme (ticks [ex_env] init_state)"
proof -
  have h1: "\<not> supplies (cpu_hwmon ex_bare_env) ''Tctl''" by code_simp
  have h2: "\<not> supplies (cpu_hwmon ex_bare_env) ''Tccd1''" by code_simp
  have h3: "read_cpu_clock ex_bare_env = Inr None" by code_simp
  have h4: "\<forall>h \<in> set (gpu_hwmons ex_bare_env). \<not> supplies h ''edge''" by code_simp
  have h5: "\<forall>h \<in> set (gpu_hwmons ex_bare_env). \<not> supplies h ''junction''" by code_simp
  have h6: "\<forall>h \<in> set (gpu_hwmons ex_bare_env). \<not> supplies h ''mem''" by code_simp
  have h7: "read_gpu_clocks_and_fan ex_bare_env = Inr (None, None, None)" by code_simp
  have h8: "read_hwmon (nvme_hwmon ex_bare_env) = Inr []" by code_simp
  from update_absent_source_unchanged
    [of ex_bare_env "ticks [ex_env] init_state" None None None None None None]
    h1 h2 h3 h4 h5 h6 h7 h8
  show ?thesis unfolding list_all_iff by blast
qed

subsection \<open>Readings of zero\<close>

lemma track_min_nonzero:
  "v \<noteq> 0 \<Longrightarrow> smin a \<noteq> Some 0 \<Longrightarrow> smin (track v a) \<noteq> Some (0::real)"
  by (auto simp: track_def min_def split: option.splits)

lemma apply_cpu_clock_nonzero: "clock_mins_nonzero s \<Longrightarrow> clock_mins_nonzero (apply_cpu_clock clk s)"
  by (auto simp: clock_mins_nonzero_def apply_cpu_clock_def truthy_def track_min_nonzero)

lemma apply_gpu_clocks_nonzero: "clock_mins_nonzero s \<Longrightarrow> clock_mins_nonzero (apply_gpu_clocks r s)"
  by (cases r) (auto simp: clock_mins_nonzero_def apply_gpu_clocks_def truthy_def Let_def track_min_nonzero)

lemma update_nonzero: "clock_mins_nonzero s \<Longrightarrow> clock_mins_nonzero (fst (update e s))"
proof (rule update_keeps [where P = clock_mins_nonzero and sel = "\<lambda>t. t"])
  fix t assume t: "clock_mins_nonzero t"
  show "clock_mins_nonzero (fst (update_cpu_temps e t))"
    using t by (simp add: clock_mins_nonzero_def update_cpu_temps_frame)
  show "clock_mins_nonzero (fst (update_cpu_clock e t))"
    using t by (simp add: update_cpu_clock_def apply_cpu_clock_nonzero split: sum.splits)
  show "clock_mins_nonzero (fst (update_gpu_temps (gpu_hwmons e) t))"
    using t by (simp add: clock_mins_nonzero_def update_gpu_temps_frame)
  show "clock_mins_nonzero (fst (update_gpu_clocks e t))"
    using t by (simp add: update_gpu_clocks_def apply_gpu_clocks_nonzero split: sum.splits)
  show "clock_mins_nonzero (fst (update_nvme e t))"
    using t by (simp add: clock_mins_nonzero_def update_nvme_frame)
qed

lemma ticks_nonzero: "clock_mins_nonzero s \<Longrightarrow> clock_mins_nonzero (ticks es s)"
  by (induction es arbitrary: s) (simp_all add: update_nonzero)

lemma init_nonzero: "clock_mins_nonzero init_state"
  by (simp add: clock_mins_nonzero_def init_state_def empty_series_def)

lemma and_then_no_error:
  "snd (and_then r f) = None \<Longrightarrow> snd r = None \<and> snd (f (fst r)) = None"
  by (cases r; cases "snd r") (auto simp: and_then_def)

lemma and_then_fst: "snd r = None \<Longrightarrow> and_then r f = f (fst r)"
  by (cases r) (simp add: and_then_def)

lemma update_fan:
  assumes "snd (update e s) = None" and "read_gpu_clocks_and_fan e = Inr (c, m, Some v)"
  shows "gpu_fan (fst (update e s)) = track v (gpu_fan s)"
proof -
  let ?r1 = "update_cpu_temps e s"
  let ?r2 = "and_then ?r1 (update_cpu_clock e)"
  let ?r3 = "and_then ?r2 (update_gpu_temps (gpu_hwmons e))"
  let ?r4 = "and_then ?r3 (update_gpu_clocks e)"
  from assms(1) have n4: "snd ?r4 = None"
    unfolding update_def by (blast dest: and_then_no_error)
  then have n3: "snd ?r3 = None" by (blast dest: and_then_no_error)
  then have n2: "snd ?r2 = None" by (blast dest: and_then_no_error)
  then have n1: "snd ?r1 = None" by (blast dest: and_then_no_error)
  have f1: "gpu_fan (fst ?r1) = gpu_fan s" by (simp add: update_cpu_temps_frame)
  have f2: "gpu_fan (fst ?r2) = gpu_fan s"
    using n1 f1 by (simp add: and_then_fst update_cpu_clock_frame)
  have f3: "gpu_fan (fst ?r3) = gpu_fan s"
    using n2 f2 by (simp add: and_then_fst update_gpu_temps_frame)
  have f4: "gpu_fan (fst ?r4) = track v (gpu_fan s)"
    using n3 f3 assms(2)
    by (simp add: and_then_fst update_gpu_clocks_def apply_gpu_clocks_def Let_def)
  show ?thesis
    unfolding update_def using n4 f4 by (simp add: and_then_fst update_nvme_frame)
qed


lemma gpu_freq_loop_pos:
  "gpu_freq_loop h ps core = Inr core' \<Longrightarrow> \<forall>x \<in> set core. 0 < x \<Longrightarrow> \<forall>x \<in> set core'. 0 < x"
proof (induction ps arbitrary: core)
  case Nil
  then show ?case by simp
next
  case (Cons p ps)
  from Cons.prems(1) obtain val where val: "read_int h p = Inr val"
    and rest: "gpu_freq_loop h ps (if val > 0 then core @ [real_of_int val / 1000000] else core) = Inr core'"
    by (cases "read_int h p") simp_all
  from Cons.prems(2) have "\<forall>x \<in> set (if val > 0 then core @ [real_of_int val / 1000000] else core). 0 < x"
    by simp
  from Cons.IH [OF rest this] show ?case .
qed

lemma gpu_dirs_loop_pos:
  "gpu_dirs_loop hs (core, mem, fan) = Inr (core', mem', fan') \<Longrightarrow> \<forall>x \<in> set core. 0 < x \<Longrightarrow>
   \<forall>x \<in> set core'. 0 < x"
proof (induction hs arbitrary: core mem fan)
  case Nil
  then show ?case by simp
next
  case (Cons h hs)
  from Cons.prems(1) obtain c1 where
    c1: "gpu_freq_loop h (glob h (match_affix ''freq'' ''_input'')) core = Inr c1"
    by (cases "gpu_freq_loop h (glob h (match_affix ''freq'' ''_input'')) core") simp_all
  from Cons.prems(1) c1 obtain f1 where f1: "read_fan h fan = Inr f1"
    by (cases "read_fan h fan") simp_all
  from Cons.prems(1) c1 f1 obtain m1 where m1: "read_mem_clock h mem = Inr m1"
    by (cases "read_mem_clock h mem") simp_all
  from Cons.prems(1) c1 f1 m1 have rest: "gpu_dirs_loop hs (c1, m1, f1) = Inr (core', mem', fan')"
    by simp
  from gpu_freq_loop_pos [OF c1 Cons.prems(2)] have "\<forall>x \<in> set c1. 0 < x" .
  from Cons.IH [OF rest this] show ?case .
qed

lemma py_max_in: "xs \<noteq> [] \<Longrightarrow> py_max xs \<in> set xs"
  using Max_in [of "set xs"] by (simp add: py_max_Max)

lemma gpu_core_clock_positive:
  assumes "read_gpu_clocks_and_fan e = Inr (Some v, m, f)"
  shows "0 < v"
proof (cases "gpu_dirs_loop (gpu_hwmons e) ([], None, None)")
  case (Inl err)
  with assms show ?thesis by (simp add: read_gpu_clocks_and_fan_def)
next
  case (Inr r)
  obtain core m' f' where r: "r = (core, m', f')" by (cases r)
  with Inr assms have ne: "core \<noteq> []" and v: "v = py_max core"
    by (simp_all add: read_gpu_clocks_and_fan_def split: if_splits)
  from gpu_dirs_loop_pos [of "gpu_hwmons e" "[]" None None core m' f'] Inr r
  have "\<forall>x \<in> set core. 0 < x" by simp
  with py_max_in [OF ne] v show ?thesis by simp
qed
lemma ex_idle_readers:
  "read_cpu_clock ex_idle_env = Inr (Some 0) \<and>
   read_gpu_clocks_and_fan ex_idle_env = Inr (None, Some 0, Some 0) \<and>
   snd (update ex_idle_env (ticks [ex_env2] init_state)) = None"
  by code_simp

text \<open>
  C10. In \<open>update\<close> a CPU clock, GPU core clock or GPU memory clock of exactly zero is handled
  like an unavailable one: the guard \<open>if clk:\<close> is false and the series stays as it was. A fan
  speed, tested with \<open>is not None\<close>, is aggregated also when it is zero. So the minimum of
  the fan series can become zero (it does on the example), and the minimum of a clock series
  is never zero, whatever the file systems \<open>es\<close> of the ticks since the start were. (For the
  GPU core clock the guard never meets a zero: by \<open>gpu_core_clock_positive\<close> the reader
  returns a positive value or \<open>None\<close>.)
\<close>

theorem update_zero_readings:
  "apply_cpu_clock (Some 0) s = apply_cpu_clock None s \<and>
   apply_gpu_clocks (Some 0, gmemclk, gfan) s = apply_gpu_clocks (None, gmemclk, gfan) s \<and>
   apply_gpu_clocks (gclk, Some 0, gfan) s = apply_gpu_clocks (gclk, None, gfan) s \<and>
   gpu_fan (apply_gpu_clocks (gclk, gmemclk, Some 0) s) = track 0 (gpu_fan s) \<and>
   (read_cpu_clock e = Inr (Some 0) \<longrightarrow> cpu_clk (fst (update e s)) = cpu_clk s) \<and>
   (read_gpu_clocks_and_fan e = Inr (c, Some 0, f) \<longrightarrow>
      gpu_memclk (fst (update e s)) = gpu_memclk s) \<and>
   (snd (update e s) = None \<and> read_gpu_clocks_and_fan e = Inr (c', m', Some 0) \<longrightarrow>
      gpu_fan (fst (update e s)) = track 0 (gpu_fan s)) \<and>
   smin (gpu_fan (fst (update ex_idle_env init_state))) = Some 0 \<and>
   clock_mins_nonzero (ticks es init_state)"
proof -
  note frames = update_cpu_temps_frame update_cpu_clock_frame update_gpu_temps_frame
    update_gpu_clocks_frame update_nvme_frame
  have 1: "apply_cpu_clock (Some 0) s = apply_cpu_clock None s"
    by (simp add: apply_cpu_clock_def truthy_def)
  have 2: "apply_gpu_clocks (Some 0, gmemclk, gfan) s = apply_gpu_clocks (None, gmemclk, gfan) s"
    by (simp add: apply_gpu_clocks_def truthy_def)
  have 3: "apply_gpu_clocks (gclk, Some 0, gfan) s = apply_gpu_clocks (gclk, None, gfan) s"
    by (simp add: apply_gpu_clocks_def truthy_def)
  have 4: "gpu_fan (apply_gpu_clocks (gclk, gmemclk, Some 0) s) = track 0 (gpu_fan s)"
    by (simp add: apply_gpu_clocks_def Let_def)
  have 5: "cpu_clk (fst (update e s)) = cpu_clk s" if "read_cpu_clock e = Inr (Some 0)"
    by (rule update_keeps [where P = "\<lambda>x. x = cpu_clk s" and sel = cpu_clk])
      (simp_all add: frames that)
  have 6: "gpu_memclk (fst (update e s)) = gpu_memclk s"
    if "read_gpu_clocks_and_fan e = Inr (c, Some 0, f)"
    by (rule update_keeps [where P = "\<lambda>x. x = gpu_memclk s" and sel = gpu_memclk])
      (simp_all add: frames update_gpu_clocks_frame [of e _ c "Some 0" f] that)
  have 7: "gpu_fan (fst (update e s)) = track 0 (gpu_fan s)"
    if "snd (update e s) = None" "read_gpu_clocks_and_fan e = Inr (c', m', Some 0)"
    using that by (rule update_fan)
  have 8: "smin (gpu_fan (fst (update ex_idle_env init_state))) = Some 0" by code_simp
  have 9: "clock_mins_nonzero (ticks es init_state)"
    by (rule ticks_nonzero [OF init_nonzero])
  from 1 2 3 4 5 6 7 8 9 show ?thesis by blast
qed

theorem update_zero_readings_witness:
  "read_cpu_clock ex_idle_env = Inr (Some 0) \<and>
   read_gpu_clocks_and_fan ex_idle_env = Inr (None, Some 0, Some 0) \<and>
   snd (update ex_idle_env (ticks [ex_env2] init_state)) = None \<and>
   cpu_clk (fst (update ex_idle_env (ticks [ex_env2] init_state))) =
     cpu_clk (ticks [ex_env2] init_state) \<and>
   gpu_memclk (fst (update ex_idle_env (ticks [ex_env2] init_state))) =
     gpu_memclk (ticks [ex_env2] init_state) \<and>
   gpu_fan (fst (update ex_idle_env (ticks [ex_env2] init_state))) =
     track 0 (gpu_fan (ticks [ex_env2] init_state)) \<and>
   clock_mins_nonzero (ticks [ex_env2, ex_idle_env] init_state)"
proof -
  have h: "read_cpu_clock ex_idle_env = Inr (Some 0)"
    "read_gpu_clocks_and_fan ex_idle_env = Inr (None, Some 0, Some 0)"
    "snd (update ex_idle_env (ticks [ex_env2] init_state)) = None"
    using ex_idle_readers by simp_all
  from update_zero_readings
    [of "ticks [ex_env2] init_state" None "Some 0" None ex_idle_env None "Some 0" None "Some 0"
      "[ex_env2, ex_idle_env]"] h
  show ?thesis by blast
qed

subsection \<open>What a tick feeds\<close>

lemma update_cpu_temps_feeds:
  "cpu_pkg (fst (update_cpu_temps e s)) = fold track (pkg_samples e) (cpu_pkg s) \<and>
   cpu_die (fst (update_cpu_temps e s)) = fold track (die_samples e) (cpu_die s)"
  by (simp add: update_cpu_temps_def pkg_samples_def die_samples_def reading_def if_some_def
      Let_def split: sum.splits option.splits)

lemma update_cpu_clock_feeds:
  "cpu_clk (fst (update_cpu_clock e s)) = fold track (cpu_clk_samples e) (cpu_clk s)"
  by (simp add: update_cpu_clock_def apply_cpu_clock_def cpu_clk_samples_def if_truthy_def
      split: sum.splits)

lemma update_gpu_dir_feeds:
  "gpu_temp (update_gpu_dir gpu s) = fold track_crit (if_some (map_of gpu ''edge'')) (gpu_temp s) \<and>
   gpu_hot (update_gpu_dir gpu s) = fold track_crit (if_some (map_of gpu ''junction'')) (gpu_hot s) \<and>
   gpu_mem (update_gpu_dir gpu s) = fold track_crit (if_some (map_of gpu ''mem'')) (gpu_mem s)"
  by (simp add: update_gpu_dir_def if_some_def Let_def split: option.splits)

lemma update_gpu_temps_feeds:
  assumes "\<And>gpu t. sel (update_gpu_dir gpu t) = fold track_crit (if_some (map_of gpu k)) (sel t)"
  shows "sel (fst (update_gpu_temps ds s)) =
         fold track_crit
           (List.map_filter (\<lambda>d. reading d k) (takeWhile (\<lambda>d. \<not> isl (read_hwmon d)) ds)) (sel s)"
proof (induction ds arbitrary: s)
  case Nil
  show ?case by (simp add: map_filter_simps)
next
  case (Cons d ds)
  show ?case
  proof (cases "read_hwmon d")
    case (Inl err)
    then show ?thesis by (simp add: map_filter_simps)
  next
    case (Inr gpu)
    then have r: "reading d k = map_of gpu k" by (simp add: reading_def)
    show ?thesis
      using Inr r Cons.IH [of "update_gpu_dir gpu s"] assms [of gpu s]
      by (cases "map_of gpu k") (simp_all add: map_filter_simps if_some_def)
  qed
qed

lemma update_gpu_clocks_feeds:
  "gpu_clk (fst (update_gpu_clocks e s)) = fold track (gpu_clk_samples e) (gpu_clk s) \<and>
   gpu_memclk (fst (update_gpu_clocks e s)) = fold track (gpu_memclk_samples e) (gpu_memclk s) \<and>
   gpu_fan (fst (update_gpu_clocks e s)) = fold track (gpu_fan_samples e) (gpu_fan s)"
  by (auto simp: update_gpu_clocks_def apply_gpu_clocks_def gpu_clk_samples_def
      gpu_memclk_samples_def gpu_fan_samples_def if_truthy_def if_some_def Let_def
      split: sum.splits prod.splits)

lemma update_nvme_feeds:
  "nvme (fst (update_nvme e s)) = fold track (nvme_samples e) (nvme s)"
  by (simp add: update_nvme_def nvme_samples_def split: sum.splits list.splits)

lemma update_cpu_temps_raises: "snd (update_cpu_temps e s) = None \<longleftrightarrow> reaches_cpu_clock e"
  by (simp add: update_cpu_temps_def reaches_cpu_clock_def Let_def split: sum.splits)

lemma update_cpu_clock_raises: "snd (update_cpu_clock e s) = None \<longleftrightarrow> \<not> isl (read_cpu_clock e)"
  by (simp add: update_cpu_clock_def split: sum.splits)

lemma update_gpu_temps_raises:
  "snd (update_gpu_temps ds s) = None \<longleftrightarrow> list_all (\<lambda>d. \<not> isl (read_hwmon d)) ds"
  by (induction ds arbitrary: s) (simp_all split: sum.splits)

lemma update_gpu_clocks_raises:
  "snd (update_gpu_clocks e s) = None \<longleftrightarrow> \<not> isl (read_gpu_clocks_and_fan e)"
  by (simp add: update_gpu_clocks_def split: sum.splits)

lemma and_then_snd: "snd r = None \<Longrightarrow> snd (and_then r f) = snd (f (fst r))"
  by (simp add: and_then_fst)

lemma update_feeds:
  "cpu_pkg (fst (update e s)) = fold track (pkg_samples e) (cpu_pkg s) \<and>
   cpu_die (fst (update e s)) = fold track (die_samples e) (cpu_die s) \<and>
   (reaches_cpu_clock e \<longrightarrow>
      cpu_clk (fst (update e s)) = fold track (cpu_clk_samples e) (cpu_clk s)) \<and>
   (reaches_gpu_temps e \<longrightarrow>
      gpu_temp (fst (update e s)) = fold track_crit (gpu_readings e ''edge'') (gpu_temp s) \<and>
      gpu_hot (fst (update e s)) = fold track_crit (gpu_readings e ''junction'') (gpu_hot s) \<and>
      gpu_mem (fst (update e s)) = fold track_crit (gpu_readings e ''mem'') (gpu_mem s)) \<and>
   (reaches_gpu_clocks e \<longrightarrow>
      gpu_clk (fst (update e s)) = fold track (gpu_clk_samples e) (gpu_clk s) \<and>
      gpu_memclk (fst (update e s)) = fold track (gpu_memclk_samples e) (gpu_memclk s) \<and>
      gpu_fan (fst (update e s)) = fold track (gpu_fan_samples e) (gpu_fan s)) \<and>
   (reaches_nvme e \<longrightarrow> nvme (fst (update e s)) = fold track (nvme_samples e) (nvme s))"
proof -
  note frames = update_cpu_temps_frame update_cpu_clock_frame update_gpu_temps_frame
    update_gpu_clocks_frame update_nvme_frame
  let ?r1 = "update_cpu_temps e s"
  let ?r2 = "and_then ?r1 (update_cpu_clock e)"
  let ?r3 = "and_then ?r2 (update_gpu_temps (gpu_hwmons e))"
  let ?r4 = "and_then ?r3 (update_gpu_clocks e)"
  have upd: "update e s = and_then ?r4 (update_nvme e)" by (simp add: update_def)
  have pkg: "cpu_pkg (fst (update e s)) = fold track (pkg_samples e) (cpu_pkg s)"
    unfolding update_def
    by (intro and_then_keeps [where P = "\<lambda>t. cpu_pkg t = fold track (pkg_samples e) (cpu_pkg s)"])
      (simp_all add: frames update_cpu_temps_feeds)
  have die: "cpu_die (fst (update e s)) = fold track (die_samples e) (cpu_die s)"
    unfolding update_def
    by (intro and_then_keeps [where P = "\<lambda>t. cpu_die t = fold track (die_samples e) (cpu_die s)"])
      (simp_all add: frames update_cpu_temps_feeds)
  have clk: "cpu_clk (fst (update e s)) = fold track (cpu_clk_samples e) (cpu_clk s)"
    if "reaches_cpu_clock e"
  proof -
    from that have n1: "snd ?r1 = None" by (simp add: update_cpu_temps_raises)
    note keeps = and_then_keeps
      [where P = "\<lambda>t. cpu_clk t = fold track (cpu_clk_samples e) (cpu_clk s)"]
    have at2: "cpu_clk (fst ?r2) = fold track (cpu_clk_samples e) (cpu_clk s)"
      using n1 by (simp add: and_then_fst update_cpu_clock_feeds frames)
    show ?thesis
      unfolding upd by (rule keeps, rule keeps, rule keeps) (simp_all add: frames at2)
  qed
  have gpu: "sel (fst (update e s)) = fold track_crit (gpu_readings e k) (sel s)"
    if "reaches_gpu_temps e"
      and dir: "\<And>gpu t. sel (update_gpu_dir gpu t) = fold track_crit (if_some (map_of gpu k)) (sel t)"
      and f1: "\<And>t. sel (fst (update_cpu_temps e t)) = sel t"
      and f2: "\<And>t. sel (fst (update_cpu_clock e t)) = sel t"
      and f4: "\<And>t. sel (fst (update_gpu_clocks e t)) = sel t"
      and f5: "\<And>t. sel (fst (update_nvme e t)) = sel t"
    for sel :: "state \<Rightarrow> real series" and k
  proof -
    from that(1) have n1: "snd ?r1 = None"
      by (simp add: reaches_gpu_temps_def update_cpu_temps_raises)
    from that(1) n1 have n2: "snd ?r2 = None"
      by (simp add: reaches_gpu_temps_def and_then_snd update_cpu_clock_raises)
    have "sel (fst ?r2) = sel s" using n1 by (simp add: and_then_fst f1 f2)
    then have at3: "sel (fst ?r3) = fold track_crit (gpu_readings e k) (sel s)"
      using n2 update_gpu_temps_feeds [of sel k "gpu_hwmons e" "fst ?r2", OF dir]
      by (simp add: and_then_fst gpu_readings_def)
    note keeps = and_then_keeps
      [where P = "\<lambda>t. sel t = fold track_crit (gpu_readings e k) (sel s)"]
    show ?thesis
      unfolding upd by (rule keeps, rule keeps) (simp_all add: f4 f5 at3)
  qed
  have n3: "snd ?r3 = None" if "reaches_gpu_clocks e"
  proof -
    from that have n1: "snd ?r1 = None"
      by (simp add: reaches_gpu_clocks_def reaches_gpu_temps_def update_cpu_temps_raises)
    from that n1 have n2: "snd ?r2 = None"
      by (simp add: reaches_gpu_clocks_def reaches_gpu_temps_def and_then_snd
          update_cpu_clock_raises)
    from that n2 show ?thesis
      by (simp add: reaches_gpu_clocks_def and_then_snd update_gpu_temps_raises)
  qed
  have before4: "gpu_clk (fst ?r3) = gpu_clk s \<and> gpu_memclk (fst ?r3) = gpu_memclk s \<and>
      gpu_fan (fst ?r3) = gpu_fan s \<and> nvme (fst ?r3) = nvme s"
    by (intro and_then_keeps
        [where P = "\<lambda>t. gpu_clk t = gpu_clk s \<and> gpu_memclk t = gpu_memclk s \<and>
           gpu_fan t = gpu_fan s \<and> nvme t = nvme s"])
      (simp_all add: frames)
  have clocks: "gpu_clk (fst (update e s)) = fold track (gpu_clk_samples e) (gpu_clk s) \<and>
      gpu_memclk (fst (update e s)) = fold track (gpu_memclk_samples e) (gpu_memclk s) \<and>
      gpu_fan (fst (update e s)) = fold track (gpu_fan_samples e) (gpu_fan s)"
    if "reaches_gpu_clocks e"
  proof -
    have at4: "gpu_clk (fst ?r4) = fold track (gpu_clk_samples e) (gpu_clk s) \<and>
      gpu_memclk (fst ?r4) = fold track (gpu_memclk_samples e) (gpu_memclk s) \<and>
      gpu_fan (fst ?r4) = fold track (gpu_fan_samples e) (gpu_fan s)"
      using n3 [OF that] before4 by (simp add: and_then_fst update_gpu_clocks_feeds)
    show ?thesis
      unfolding upd
      by (rule and_then_keeps
          [where P = "\<lambda>t. gpu_clk t = fold track (gpu_clk_samples e) (gpu_clk s) \<and>
             gpu_memclk t = fold track (gpu_memclk_samples e) (gpu_memclk s) \<and>
             gpu_fan t = fold track (gpu_fan_samples e) (gpu_fan s)"])
        (simp_all add: frames at4)
  qed
  have nv: "nvme (fst (update e s)) = fold track (nvme_samples e) (nvme s)" if "reaches_nvme e"
  proof -
    from that have r: "reaches_gpu_clocks e" by (simp add: reaches_nvme_def)
    from that n3 [OF r] have n4: "snd ?r4 = None"
      by (simp add: reaches_nvme_def and_then_snd update_gpu_clocks_raises)
    have "nvme (fst ?r4) = nvme s"
      using n3 [OF r] before4 by (simp add: and_then_fst frames)
    with n4 show ?thesis unfolding upd by (simp add: and_then_fst update_nvme_feeds)
  qed
  from pkg die clk
    gpu [where sel = gpu_temp and k = "''edge''"]
    gpu [where sel = gpu_hot and k = "''junction''"]
    gpu [where sel = gpu_mem and k = "''mem''"]
    clocks nv
  show ?thesis by (simp add: frames update_gpu_dir_feeds)
qed


text \<open>
  C1. For every sequence of samples fed to one metric by successive calls of \<open>update\<close>: the
  first sample sets the current value, the minimum and the maximum to the sample; after every
  later call the minimum is at most the current value, which is at most the maximum; the
  minimum never increases and the maximum never decreases.

  The theorem says, for every file system \<open>e\<close> and every state \<open>s\<close>, what \<open>update\<close> does to
  each of the ten series: it feeds the samples of the tick to it with \<open>track\<close>, one by one
  (with \<open>track_crit\<close> for the GPU temperatures, which treats current value, minimum and
  maximum as \<open>track\<close> does), provided the part of \<open>update\<close> for that series is reached. A first
  sample \<open>v\<close> makes the three values \<open>v\<close>. And with \<open>es\<close> the file systems of the ticks since the
  program started: every series is then empty or ordered (\<open>state_ok\<close>), and from the state
  before a call to the state after it every series is again empty or ordered, keeps a minimum
  that does not grow and a maximum that does not shrink (\<open>state_step\<close>).
\<close>

theorem update_min_max_invariant:
  "(current a = None \<and> smin a = None \<and> smax a = None \<longrightarrow>
      current (track v a) = Some v \<and> smin (track v a) = Some v \<and> smax (track v a) = Some v) \<and>
   same_values (track_crit (t, c) b) (track t b) \<and>
   cpu_pkg (fst (update e s)) = fold track (pkg_samples e) (cpu_pkg s) \<and>
   cpu_die (fst (update e s)) = fold track (die_samples e) (cpu_die s) \<and>
   (reaches_cpu_clock e \<longrightarrow>
      cpu_clk (fst (update e s)) = fold track (cpu_clk_samples e) (cpu_clk s)) \<and>
   (reaches_gpu_temps e \<longrightarrow>
      gpu_temp (fst (update e s)) = fold track_crit (gpu_readings e ''edge'') (gpu_temp s) \<and>
      gpu_hot (fst (update e s)) = fold track_crit (gpu_readings e ''junction'') (gpu_hot s) \<and>
      gpu_mem (fst (update e s)) = fold track_crit (gpu_readings e ''mem'') (gpu_mem s)) \<and>
   (reaches_gpu_clocks e \<longrightarrow>
      gpu_clk (fst (update e s)) = fold track (gpu_clk_samples e) (gpu_clk s) \<and>
      gpu_memclk (fst (update e s)) = fold track (gpu_memclk_samples e) (gpu_memclk s) \<and>
      gpu_fan (fst (update e s)) = fold track (gpu_fan_samples e) (gpu_fan s)) \<and>
   (reaches_nvme e \<longrightarrow> nvme (fst (update e s)) = fold track (nvme_samples e) (nvme s)) \<and>
   state_ok (ticks es init_state) \<and>
   state_step (ticks es init_state) (fst (update e (ticks es init_state)))"
proof -
  have ok: "state_ok (ticks es init_state)"
    by (rule state_step_ok [OF ticks_step [OF init_state_ok]])
  from ok have step: "state_step (ticks es init_state) (fst (update e (ticks es init_state)))"
    by (rule update_step)
  have first: "current a = None \<and> smin a = None \<and> smax a = None \<longrightarrow>
      current (track v a) = Some v \<and> smin (track v a) = Some v \<and> smax (track v a) = Some v"
    by (simp add: track_def)
  have crit: "same_values (track_crit (t, c) b) (track t b)"
    by (simp add: track_crit_def same_values_def Let_def)
  from first crit update_feeds [of e s] ok step show ?thesis by blast
qed

theorem update_min_max_invariant_witness:
  "reaches_nvme ex_full_env \<and>
   cpu_pkg (fst (update ex_full_env init_state)) =
     \<lparr>current = Some 45, smin = Some 45, smax = Some 45, critical = None\<rparr> \<and>
   cpu_die (fst (update ex_full_env init_state)) =
     \<lparr>current = Some 51.5, smin = Some 51.5, smax = Some 51.5, critical = None\<rparr> \<and>
   cpu_clk (fst (update ex_full_env init_state)) =
     \<lparr>current = Some 3.5, smin = Some 3.5, smax = Some 3.5, critical = None\<rparr> \<and>
   gpu_temp (fst (update ex_full_env init_state)) =
     \<lparr>current = Some 60, smin = Some 60, smax = Some 60, critical = Some 100\<rparr> \<and>
   gpu_hot (fst (update ex_full_env init_state)) =
     \<lparr>current = Some 70, smin = Some 70, smax = Some 70, critical = Some 110\<rparr> \<and>
   gpu_mem (fst (update ex_full_env init_state)) =
     \<lparr>current = Some 64, smin = Some 64, smax = Some 64, critical = None\<rparr> \<and>
   gpu_clk (fst (update ex_full_env init_state)) =
     \<lparr>current = Some 500, smin = Some 500, smax = Some 500, critical = None\<rparr> \<and>
   gpu_memclk (fst (update ex_full_env init_state)) =
     \<lparr>current = Some 96, smin = Some 96, smax = Some 96, critical = None\<rparr> \<and>
   gpu_fan (fst (update ex_full_env init_state)) =
     \<lparr>current = Some 1200, smin = Some 1200, smax = Some 1200, critical = None\<rparr> \<and>
   nvme (fst (update ex_full_env init_state)) =
     \<lparr>current = Some 38, smin = Some 38, smax = Some 38, critical = None\<rparr> \<and>
   cpu_pkg (fst (update ex_full_env2 (fst (update ex_full_env init_state)))) =
     \<lparr>current = Some 40, smin = Some 40, smax = Some 45, critical = None\<rparr> \<and>
   nvme (fst (update ex_full_env2 (fst (update ex_full_env init_state)))) =
     \<lparr>current = Some 39.5, smin = Some 38, smax = Some 39.5, critical = None\<rparr> \<and>
   state_ok (ticks [ex_full_env] init_state) \<and>
   state_step (ticks [ex_full_env] init_state)
     (fst (update ex_full_env2 (ticks [ex_full_env] init_state)))"
proof -
  have r: "reaches_nvme ex_full_env" "reaches_gpu_clocks ex_full_env"
    "reaches_gpu_temps ex_full_env" "reaches_cpu_clock ex_full_env"
    "reaches_nvme ex_full_env2"
    by code_simp+
  have samples: "pkg_samples ex_full_env = [45]" "die_samples ex_full_env = [51.5]"
    "cpu_clk_samples ex_full_env = [3.5]"
    "gpu_readings ex_full_env ''edge'' = [(60, Some 100)]"
    "gpu_readings ex_full_env ''junction'' = [(70, Some 110)]"
    "gpu_readings ex_full_env ''mem'' = [(64, None)]"
    "gpu_clk_samples ex_full_env = [500]" "gpu_memclk_samples ex_full_env = [96]"
    "gpu_fan_samples ex_full_env = [1200]" "nvme_samples ex_full_env = [38]"
    "pkg_samples ex_full_env2 = [40]" "nvme_samples ex_full_env2 = [39.5]"
    by code_simp+
  note one = update_min_max_invariant
    [of "empty_series" "45::real" 60 "Some 100" empty_series ex_full_env init_state "[ex_full_env]"]
  note two = update_min_max_invariant
    [of "empty_series" "45::real" 60 "Some 100" empty_series ex_full_env2
      "fst (update ex_full_env init_state)" "[ex_full_env]"]
  have first: "cpu_pkg (fst (update ex_full_env init_state)) =
       \<lparr>current = Some 45, smin = Some 45, smax = Some 45, critical = None\<rparr>"
    "cpu_die (fst (update ex_full_env init_state)) =
       \<lparr>current = Some 51.5, smin = Some 51.5, smax = Some 51.5, critical = None\<rparr>"
    "cpu_clk (fst (update ex_full_env init_state)) =
       \<lparr>current = Some 3.5, smin = Some 3.5, smax = Some 3.5, critical = None\<rparr>"
    "gpu_temp (fst (update ex_full_env init_state)) =
       \<lparr>current = Some 60, smin = Some 60, smax = Some 60, critical = Some 100\<rparr>"
    "gpu_hot (fst (update ex_full_env init_state)) =
       \<lparr>current = Some 70, smin = Some 70, smax = Some 70, critical = Some 110\<rparr>"
    "gpu_mem (fst (update ex_full_env init_state)) =
       \<lparr>current = Some 64, smin = Some 64, smax = Some 64, critical = None\<rparr>"
    "gpu_clk (fst (update ex_full_env init_state)) =
       \<lparr>current = Some 500, smin = Some 500, smax = Some 500, critical = None\<rparr>"
    "gpu_memclk (fst (update ex_full_env init_state)) =
       \<lparr>current = Some 96, smin = Some 96, smax = Some 96, critical = None\<rparr>"
    "gpu_fan (fst (update ex_full_env init_state)) =
       \<lparr>current = Some 1200, smin = Some 1200, smax = Some 1200, critical = None\<rparr>"
    "nvme (fst (update ex_full_env init_state)) =
       \<lparr>current = Some 38, smin = Some 38, smax = Some 38, critical = None\<rparr>"
    using one r samples
    by (simp_all add: init_state_def empty_series_def track_def track_crit_def truthy_def)
  have second: "cpu_pkg (fst (update ex_full_env2 (fst (update ex_full_env init_state)))) =
       \<lparr>current = Some 40, smin = Some 40, smax = Some 45, critical = None\<rparr>"
    "nvme (fst (update ex_full_env2 (fst (update ex_full_env init_state)))) =
       \<lparr>current = Some 39.5, smin = Some 38, smax = Some 39.5, critical = None\<rparr>"
    using two r samples first by (simp_all add: track_def)
  have inv: "state_ok (ticks [ex_full_env] init_state)"
    "state_step (ticks [ex_full_env] init_state)
       (fst (update ex_full_env2 (ticks [ex_full_env] init_state)))"
    using two by blast+
  show ?thesis by (intro conjI r(1) first second inv)
qed

subsection \<open>The hardware names\<close>

lemma cpu_name_loop_find:
  "cpu_name_loop ls =
     (case List.find (\<lambda>l. startswith l ''model name'') ls of
        None \<Rightarrow> Inr None
      | Some l \<Rightarrow>
          if CHR '':'' \<in> set l then Inr (Some (py_strip (after_colon l))) else Inl IndexError)"
  by (induction ls) (simp_all add: py_index_def py_split_sep1_def after_colon_def)

lemma gpu_name_loop_first:
  "gpu_name_loop db cs =
     (case filter (\<lambda>(n, v, d). v \<noteq> None \<and> d \<noteq> None) cs of
        [] \<Rightarrow> Inr None
      | (n, v, d) # rest \<Rightarrow>
          (case lookup_pci_name db (hex_id (the v)) (hex_id (the d)) of
             Inl e \<Rightarrow> Inl e
           | Inr name \<Rightarrow>
               if name \<noteq> None \<and> name \<noteq> Some []
               then Inr (Some (the name, True))
               else Inr (Some (''AMD Radeon ['' @ hex_id (the v) @ '':'' @ hex_id (the d) @ '']'',
                               False))))"
proof (induction cs)
  case Nil
  show ?case by simp
next
  case (Cons a cs)
  obtain n v d where a: "a = (n, v, d)" by (cases a)
  show ?case
  proof (cases "v \<noteq> None \<and> d \<noteq> None")
    case True
    then obtain v' d' where "v = Some v'" "d = Some d'" by auto
    with a show ?thesis by (simp split: sum.splits)
  next
    case False
    with a Cons show ?thesis by (cases v; cases d) simp_all
  qed
qed

lemma lookup_loop_nonempty: "lookup_loop vendor device cv ls = Inr (Some name) \<Longrightarrow> name \<noteq> []"
  by (induction vendor device cv ls rule: lookup_loop.induct)
    (auto split: if_splits sum.splits)


lemma get_cpu_name_eq:
  "get_cpu_name e =
     Inr (case model_line e of
            None \<Rightarrow> ''Unknown CPU''
          | Some l \<Rightarrow> if CHR '':'' \<in> set l then py_strip (after_colon l) else ''Unknown CPU'')"
  by (simp add: get_cpu_name_def get_cpu_name_body_def try_or_def model_line_def
      cpu_name_loop_find split: option.splits)

lemma filter_usable:
  "filter (\<lambda>(n, v, d). v \<noteq> None \<and> d \<noteq> None) (filter (\<lambda>(n, v, d). match_affix ''card'' [] n) cs) =
   filter (\<lambda>(n, v, d). match_affix ''card'' [] n \<and> v \<noteq> None \<and> d \<noteq> None) cs"
  by (induction cs) auto

lemma get_gpu_name_cases:
  "get_gpu_name e =
     Inr (case first_gpu e of
            None \<Rightarrow> (''Unknown GPU'', False)
          | Some (vendor, device) \<Rightarrow>
              (case lookup_pci_name (pci_ids e) vendor device of
                 Inl err \<Rightarrow> (''Unknown GPU'', False)
               | Inr None \<Rightarrow> (''AMD Radeon ['' @ vendor @ '':'' @ device @ '']'', False)
               | Inr (Some name) \<Rightarrow> (name, True)))"
proof -
  let ?F = "filter (\<lambda>(n, v, d). match_affix ''card'' [] n \<and> v \<noteq> None \<and> d \<noteq> None) (sys_drm e)"
  have body: "get_gpu_name_body e =
     (case ?F of
        [] \<Rightarrow> Inr None
      | (n, v, d) # rest \<Rightarrow>
          (case lookup_pci_name (pci_ids e) (hex_id (the v)) (hex_id (the d)) of
             Inl e \<Rightarrow> Inl e
           | Inr name \<Rightarrow>
               if name \<noteq> None \<and> name \<noteq> Some []
               then Inr (Some (the name, True))
               else Inr (Some (''AMD Radeon ['' @ hex_id (the v) @ '':'' @ hex_id (the d) @ '']'',
                               False))))"
    by (simp only: get_gpu_name_body_def gpu_name_loop_first filter_usable)
  show ?thesis
  proof (cases ?F)
    case Nil
    with body have "get_gpu_name_body e = Inr None" by simp
    moreover from Nil have "first_gpu e = None" by (simp add: first_gpu_def)
    ultimately show ?thesis by (simp add: get_gpu_name_def try_or_def)
  next
    case (Cons a rest)
    obtain n v d where a: "a = (n, v, d)" by (cases a)
    from Cons a have fg: "first_gpu e = Some (hex_id (the v), hex_id (the d))"
      by (simp add: first_gpu_def)
    show ?thesis
    proof (cases "lookup_pci_name (pci_ids e) (hex_id (the v)) (hex_id (the d))")
      case (Inl err)
      with body Cons a have "get_gpu_name_body e = Inl err" by simp
      with fg Inl show ?thesis by (simp add: get_gpu_name_def try_or_def)
    next
      case (Inr name)
      then have ne: "name \<noteq> Some []"
        by (auto simp: lookup_pci_name_def split: option.splits dest: lookup_loop_nonempty)
      show ?thesis
      proof (cases name)
        case None
        with body Cons a Inr have "get_gpu_name_body e =
            Inr (Some (''AMD Radeon ['' @ hex_id (the v) @ '':'' @ hex_id (the d) @ '']'', False))"
          by simp
        with fg Inr None show ?thesis by (simp add: get_gpu_name_def try_or_def)
      next
        case (Some x)
        with body Cons a Inr ne have "get_gpu_name_body e = Inr (Some (x, True))" by simp
        with fg Inr Some show ?thesis by (simp add: get_gpu_name_def try_or_def)
      qed
    qed
  qed
qed

text \<open>
  C6, as the code has it. The name helpers never raise. \<open>get_cpu_name\<close> returns what follows
  the colon of the first \<open>model name\<close> line, stripped, and \<open>Unknown CPU\<close> when the file cannot
  be read, has no such line, or that line has no colon. \<open>get_gpu_name\<close> looks at the first
  graphics device that has both identifier files: it returns the name with \<open>True\<close> when the
  lookup returns one, and a string that embeds the raw \<open>vendor:device\<close> pair with \<open>False\<close>
  when the lookup returns \<open>None\<close> (as it does when the database is absent). It returns
  \<open>Unknown GPU\<close> with \<open>False\<close> when there is no such device, and also when the lookup raises:
  the \<open>try\<close> around the loop catches every exception.
\<close>

theorem name_helpers_never_raise:
  "(\<exists>n. get_cpu_name e = Inr n) \<and> (\<exists>r. get_gpu_name e = Inr r) \<and>
   get_cpu_name e =
     Inr (case model_line e of
            None \<Rightarrow> ''Unknown CPU''
          | Some l \<Rightarrow> if CHR '':'' \<in> set l then py_strip (after_colon l) else ''Unknown CPU'') \<and>
   (first_gpu e = None \<longrightarrow> get_gpu_name e = Inr (''Unknown GPU'', False)) \<and>
   (first_gpu e = Some (vendor, device) \<and>
    lookup_pci_name (pci_ids e) vendor device = Inr (Some name) \<longrightarrow>
      get_gpu_name e = Inr (name, True)) \<and>
   (first_gpu e = Some (vendor, device) \<and> lookup_pci_name (pci_ids e) vendor device = Inr None \<longrightarrow>
      get_gpu_name e = Inr (''AMD Radeon ['' @ vendor @ '':'' @ device @ '']'', False)) \<and>
   (first_gpu e = Some (vendor, device) \<and> lookup_pci_name (pci_ids e) vendor device = Inl err \<longrightarrow>
      get_gpu_name e = Inr (''Unknown GPU'', False)) \<and>
   lookup_pci_name None vendor device = Inr None"
proof -
  have "lookup_pci_name None vendor device = Inr None" by (simp add: lookup_pci_name_def)
  then show ?thesis by (simp add: get_cpu_name_eq get_gpu_name_cases)
qed

theorem name_helpers_never_raise_witness:
  "first_gpu ex_gpu_machine = Some (''10DE'', ''1234'') \<and>
   lookup_pci_name (pci_ids ex_gpu_machine) ''10DE'' ''1234'' =
     Inr (Some ''NVIDIA Corporation Some GPU'') \<and>
   get_gpu_name ex_gpu_machine = Inr (''NVIDIA Corporation Some GPU'', True) \<and>
   get_cpu_name ex_gpu_machine = Inr ''AMD Ryzen 7 5800X'' \<and>
   get_gpu_name (ex_gpu_machine\<lparr>pci_ids := None\<rparr>) = Inr (''AMD Radeon [10DE:1234]'', False) \<and>
   lookup_pci_name (Some ex_pci_ids_blank) ''10DE'' ''1234'' = Inl IndexError \<and>
   get_gpu_name (ex_gpu_machine\<lparr>pci_ids := Some ex_pci_ids_blank\<rparr>) = Inr (''Unknown GPU'', False) \<and>
   first_gpu ex_bare_env = None \<and>
   get_gpu_name ex_bare_env = Inr (''Unknown GPU'', False) \<and>
   get_cpu_name ex_bare_env = Inr ''Unknown CPU''"
proof -
  have g: "first_gpu ex_gpu_machine = Some (''10DE'', ''1234'')" by code_simp
  have g1: "first_gpu (ex_gpu_machine\<lparr>pci_ids := None\<rparr>) = Some (''10DE'', ''1234'')" by code_simp
  have g2: "first_gpu (ex_gpu_machine\<lparr>pci_ids := Some ex_pci_ids_blank\<rparr>) =
      Some (''10DE'', ''1234'')" by code_simp
  have l: "lookup_pci_name (pci_ids ex_gpu_machine) ''10DE'' ''1234'' =
      Inr (Some ''NVIDIA Corporation Some GPU'')" by code_simp
  have l2: "lookup_pci_name (Some ex_pci_ids_blank) ''10DE'' ''1234'' = Inl IndexError"
    by code_simp
  have m: "model_line ex_gpu_machine = Some ''model name : AMD Ryzen 7 5800X''" by code_simp
  have a: "py_strip (after_colon ''model name : AMD Ryzen 7 5800X'') = ''AMD Ryzen 7 5800X''"
    by code_simp
  have b: "first_gpu ex_bare_env = None" "model_line ex_bare_env = None" by code_simp+
  from name_helpers_never_raise [of ex_gpu_machine "''10DE''" "''1234''"
      "''NVIDIA Corporation Some GPU''" IndexError]
    name_helpers_never_raise [of "ex_gpu_machine\<lparr>pci_ids := None\<rparr>" "''10DE''" "''1234''"
      "''NVIDIA Corporation Some GPU''" IndexError]
    name_helpers_never_raise [of "ex_gpu_machine\<lparr>pci_ids := Some ex_pci_ids_blank\<rparr>"
      "''10DE''" "''1234''" "''NVIDIA Corporation Some GPU''" IndexError]
    name_helpers_never_raise [of ex_bare_env "''10DE''" "''1234''"
      "''NVIDIA Corporation Some GPU''" IndexError]
    g g1 g2 l l2 m a b
  show ?thesis by simp
qed

text \<open>
  C6 as it is written fails on a machine whose graphics device has both identifier files
  when the lookup raises: the result is \<open>Unknown GPU\<close>, neither the resolved name nor the
  string with the raw identifiers.
\<close>

theorem get_gpu_name_raising_lookup_counterexample:
  "first_gpu (ex_gpu_machine\<lparr>pci_ids := Some ex_pci_ids_blank\<rparr>) = Some (''10DE'', ''1234'') \<and>
   lookup_pci_name (pci_ids (ex_gpu_machine\<lparr>pci_ids := Some ex_pci_ids_blank\<rparr>)) ''10DE'' ''1234'' =
     Inl IndexError \<and>
   get_gpu_name (ex_gpu_machine\<lparr>pci_ids := Some ex_pci_ids_blank\<rparr>) =
     Inr (''Unknown GPU'', False)"
  by code_simp

subsection \<open>The lookup in the PCI database\<close>

lemma indented_not_skipped: "indented l \<Longrightarrow> \<not> skipped l"
  by (auto simp: indented_def skipped_def startswith_def)

lemma under_Cons:
  "under d (l # ls) dn \<longleftrightarrow>
     (device_line d l \<and> dn = device_name l) \<or> ((skipped l \<or> indented l) \<and> under d ls dn)"
proof
  assume "under d (l # ls) dn"
  then obtain block dl post where eq: "l # ls = block @ dl # post"
    and blk: "\<forall>l \<in> set block. skipped l \<or> indented l"
    and dl: "device_line d dl" "dn = device_name dl"
    by (auto simp: under_def)
  show "(device_line d l \<and> dn = device_name l) \<or> ((skipped l \<or> indented l) \<and> under d ls dn)"
  proof (cases block)
    case Nil
    with eq dl show ?thesis by simp
  next
    case (Cons b block')
    with eq have "l = b" "ls = block' @ dl # post" by simp_all
    with Cons blk dl show ?thesis by (auto simp: under_def)
  qed
next
  assume "(device_line d l \<and> dn = device_name l) \<or> ((skipped l \<or> indented l) \<and> under d ls dn)"
  then show "under d (l # ls) dn"
  proof
    assume "device_line d l \<and> dn = device_name l"
    then have "l # ls = [] @ l # ls \<and> (\<forall>l \<in> set []. skipped l \<or> indented l) \<and>
        device_line d l \<and> dn = device_name l" by simp
    then show ?thesis unfolding under_def by blast
  next
    assume a: "(skipped l \<or> indented l) \<and> under d ls dn"
    then obtain block dl post where "ls = block @ dl # post"
      "\<forall>l \<in> set block. skipped l \<or> indented l" "device_line d dl" "dn = device_name dl"
      by (auto simp: under_def)
    with a have "l # ls = (l # block) @ dl # post \<and>
        (\<forall>x \<in> set (l # block). skipped x \<or> indented x) \<and> device_line d dl \<and> dn = device_name dl"
      by simp
    then show ?thesis unfolding under_def by blast
  qed
qed

lemma listed_Cons:
  "listed v d (l # ls) name \<longleftrightarrow>
     (vendor_line v l \<and> (\<exists>dn. under d ls dn \<and> name = vendor_name l @ '' '' @ dn)) \<or>
     listed v d ls name"
proof
  assume "listed v d (l # ls) name"
  then obtain pre vl rest dn where eq: "l # ls = pre @ vl # rest"
    and vl: "vendor_line v vl" "under d rest dn" "name = vendor_name vl @ '' '' @ dn"
    by (auto simp: listed_def)
  show "(vendor_line v l \<and> (\<exists>dn. under d ls dn \<and> name = vendor_name l @ '' '' @ dn)) \<or>
     listed v d ls name"
  proof (cases pre)
    case Nil
    with eq vl show ?thesis by auto
  next
    case (Cons p pre')
    with eq have "ls = pre' @ vl # rest" by simp
    with vl show ?thesis unfolding listed_def by blast
  qed
next
  assume "(vendor_line v l \<and> (\<exists>dn. under d ls dn \<and> name = vendor_name l @ '' '' @ dn)) \<or>
     listed v d ls name"
  then show "listed v d (l # ls) name"
  proof
    assume "vendor_line v l \<and> (\<exists>dn. under d ls dn \<and> name = vendor_name l @ '' '' @ dn)"
    then obtain dn where "l # ls = [] @ l # ls" "vendor_line v l" "under d ls dn"
      "name = vendor_name l @ '' '' @ dn" by auto
    then show ?thesis unfolding listed_def by blast
  next
    assume "listed v d ls name"
    then obtain pre vl rest dn where "ls = pre @ vl # rest" "vendor_line v vl" "under d rest dn"
      "name = vendor_name vl @ '' '' @ dn" by (auto simp: listed_def)
    then have "l # ls = (l # pre) @ vl # rest \<and> vendor_line v vl \<and> under d rest dn \<and>
      name = vendor_name vl @ '' '' @ dn" by simp
    then show ?thesis unfolding listed_def by blast
  qed
qed


lemma py_split1_second:
  assumes "length (py_split1 s) > 1"
  shows "py_split1 s ! 1 \<noteq> []"
proof -
  define s1 where "s1 = dropWhile py_isspace s"
  define tok where "tok = takeWhile (\<lambda>c. \<not> py_isspace c) s1"
  define rest where "rest = dropWhile py_isspace (dropWhile (\<lambda>c. \<not> py_isspace c) s1)"
  have eq: "py_split1 s = (if s1 = [] then [] else if rest = [] then [tok] else [tok, rest])"
    unfolding py_split1_def Let_def s1_def tok_def rest_def ..
  show ?thesis
  proof (cases "s1 = []")
    case True
    with eq assms show ?thesis by simp
  next
    case False
    show ?thesis
    proof (cases "rest = []")
      case True
      with eq False assms show ?thesis by simp
    next
      case nr: False
      with eq False have "py_split1 s = [tok, rest]" by simp
      with nr show ?thesis by simp
    qed
  qed
qed

lemma db_well_formed_Cons:
  "db_well_formed (l # ls) \<longleftrightarrow>
     (\<not> skipped l \<longrightarrow> (if indented l then length (py_split1 (py_strip l)) > 1 else py_split1 l \<noteq> [])) \<and>
     db_well_formed ls"
  by (simp add: db_well_formed_def)

lemma lookup_loop_skip: "skipped l \<Longrightarrow> lookup_loop v d cv (l # ls) = lookup_loop v d cv ls"
  by (simp add: skipped_def lookup_loop.simps)

lemma lookup_loop_vendor:
  "\<not> skipped l \<Longrightarrow> \<not> indented l \<Longrightarrow> py_split1 l \<noteq> [] \<Longrightarrow>
   lookup_loop v d cv (l # ls) =
     lookup_loop v d (if vendor_line v l then Some (vendor_name l) else None) ls"
  by (simp add: skipped_def indented_def vendor_line_def vendor_name_def py_index_def)

lemma lookup_loop_device:
  "indented l \<Longrightarrow> length (py_split1 (py_strip l)) > 1 \<Longrightarrow> vn \<noteq> [] \<Longrightarrow>
   lookup_loop v d (Some vn) (l # ls) =
     (if device_line d l then Inr (Some (vn @ '' '' @ device_name l))
      else lookup_loop v d (Some vn) ls)"
  using indented_not_skipped [of l]
  by (auto simp: skipped_def indented_def device_line_def device_name_def py_index_def)

lemma lookup_loop_closed:
  "indented l \<Longrightarrow> lookup_loop v d None (l # ls) = lookup_loop v d None ls"
  using indented_not_skipped [of l]
  by (simp add: skipped_def indented_def)

declare lookup_loop.simps(2) [simp del]

lemma lookup_loop_listed:
  "db_well_formed ls \<Longrightarrow> cv \<noteq> Some [] \<Longrightarrow>
   \<exists>r. lookup_loop v d cv ls = Inr r \<and>
       (r = None \<longrightarrow> (cv = None \<or> (\<forall>dn. \<not> under d ls dn)) \<and> (\<forall>name. \<not> listed v d ls name)) \<and>
       (\<forall>name. r = Some name \<longrightarrow>
          (\<exists>vn dn. cv = Some vn \<and> under d ls dn \<and> name = vn @ '' '' @ dn) \<or> listed v d ls name)"
proof (induction ls arbitrary: cv)
  case Nil
  show ?case by (simp add: under_def listed_def)
next
  case (Cons l ls)
  from Cons.prems have wf: "db_well_formed ls" by (simp add: db_well_formed_Cons)
  show ?case
  proof (cases "skipped l")
    case True
    then have nd: "\<not> device_line d l" and nv: "\<not> vendor_line v l"
      using indented_not_skipped [of l] by (auto simp: device_line_def vendor_line_def)
    from Cons.IH [OF wf Cons.prems(2)] obtain r where r: "lookup_loop v d cv ls = Inr r"
      "r = None \<longrightarrow> (cv = None \<or> (\<forall>dn. \<not> under d ls dn)) \<and> (\<forall>name. \<not> listed v d ls name)"
      "\<forall>name. r = Some name \<longrightarrow>
          (\<exists>vn dn. cv = Some vn \<and> under d ls dn \<and> name = vn @ '' '' @ dn) \<or> listed v d ls name"
      by blast
    from r(1) True have "lookup_loop v d cv (l # ls) = Inr r" by (simp add: lookup_loop_skip)
    with r(2,3) True nd nv show ?thesis by (simp add: under_Cons listed_Cons)
  next
    case ns: False
    show ?thesis
    proof (cases "indented l")
      case False
      with ns Cons.prems have tok: "py_split1 l \<noteq> []" by (simp add: db_well_formed_Cons)
      let ?cv = "if vendor_line v l then Some (vendor_name l) else None"
      have "?cv \<noteq> Some []"
        using py_split1_second [of l] by (simp add: vendor_line_def vendor_name_def)
      from Cons.IH [OF wf this] obtain r where r: "lookup_loop v d ?cv ls = Inr r"
        "r = None \<longrightarrow> (?cv = None \<or> (\<forall>dn. \<not> under d ls dn)) \<and> (\<forall>name. \<not> listed v d ls name)"
        "\<forall>name. r = Some name \<longrightarrow>
          (\<exists>vn dn. ?cv = Some vn \<and> under d ls dn \<and> name = vn @ '' '' @ dn) \<or> listed v d ls name"
        by blast
      have nd: "\<not> device_line d l" using False by (simp add: device_line_def)
      have nu: "\<not> under d (l # ls) dn" for dn using nd ns False by (simp add: under_Cons)
      from r(1) ns False tok have eq: "lookup_loop v d cv (l # ls) = Inr r"
        by (simp add: lookup_loop_vendor)
      show ?thesis
      proof (cases "vendor_line v l")
        case True
        with r(2,3) eq nu show ?thesis by (auto simp: listed_Cons)
      next
        case nv: False
        with r(2,3) eq nu show ?thesis by (auto simp: listed_Cons)
      qed
    next
      case ind: True
      with ns Cons.prems have two: "length (py_split1 (py_strip l)) > 1"
        by (simp add: db_well_formed_Cons)
      have nv: "\<not> vendor_line v l" using ind by (simp add: vendor_line_def)
      show ?thesis
      proof (cases cv)
        case None
        from Cons.IH [OF wf, of None] obtain r where r: "lookup_loop v d None ls = Inr r"
          "r = None \<longrightarrow> (\<forall>name. \<not> listed v d ls name)"
          "\<forall>name. r = Some name \<longrightarrow> listed v d ls name"
          by auto
        from r(1) ind have "lookup_loop v d None (l # ls) = Inr r"
          by (simp add: lookup_loop_closed)
        with r(2,3) None nv show ?thesis by (simp add: listed_Cons)
      next
        case (Some vn)
        with Cons.prems(2) have vn: "vn \<noteq> []" by simp
        show ?thesis
        proof (cases "device_line d l")
          case True
          with ind two vn have "lookup_loop v d (Some vn) (l # ls) =
              Inr (Some (vn @ '' '' @ device_name l))"
            by (simp add: lookup_loop_device)
          moreover have "under d (l # ls) (device_name l)" using True by (simp add: under_Cons)
          ultimately show ?thesis using Some by auto
        next
          case nd: False
          from Cons.IH [OF wf, of "Some vn"] vn obtain r where
            r: "lookup_loop v d (Some vn) ls = Inr r"
            "r = None \<longrightarrow> (\<forall>dn. \<not> under d ls dn) \<and> (\<forall>name. \<not> listed v d ls name)"
            "\<forall>name. r = Some name \<longrightarrow>
               (\<exists>dn. under d ls dn \<and> name = vn @ '' '' @ dn) \<or> listed v d ls name"
            by auto
          from r(1) ind two vn nd have "lookup_loop v d (Some vn) (l # ls) = Inr r"
            by (simp add: lookup_loop_device)
          with r(2,3) Some nd nv ind show ?thesis by (simp add: under_Cons listed_Cons)
        qed
      qed
    qed
  qed
qed


text \<open>
  On a well-formed database the lookup returns, and it returns a name exactly when the
  database lists the device under the vendor; the name it returns is one the database lists.
\<close>

lemma lookup_pci_name_well_formed:
  assumes "db_well_formed (py_splitlines t)"
  shows "\<exists>r. lookup_pci_name (Some t) vendor device = Inr r \<and>
     (r = None \<longleftrightarrow>
        (\<forall>name. \<not> listed (py_lower vendor) (py_lower device) (py_splitlines t) name)) \<and>
     (\<forall>name. r = Some name \<longrightarrow>
        listed (py_lower vendor) (py_lower device) (py_splitlines t) name)"
proof -
  from lookup_loop_listed [OF assms, of None "py_lower vendor" "py_lower device"]
  obtain r where r: "lookup_loop (py_lower vendor) (py_lower device) None (py_splitlines t) = Inr r"
    and none: "r = None \<longrightarrow>
      (\<forall>name. \<not> listed (py_lower vendor) (py_lower device) (py_splitlines t) name)"
    and some: "\<forall>name. r = Some name \<longrightarrow>
      listed (py_lower vendor) (py_lower device) (py_splitlines t) name"
    by auto
  from r have "lookup_pci_name (Some t) vendor device = Inr r" by (simp add: lookup_pci_name_def)
  moreover have "r = None \<longleftrightarrow>
      (\<forall>name. \<not> listed (py_lower vendor) (py_lower device) (py_splitlines t) name)"
    using none some by (cases r) auto
  ultimately show ?thesis using some by blast
qed

lemma ex_pci_ids_well_formed:
  "db_well_formed (py_splitlines ex_pci_ids) \<and> \<not> db_well_formed (py_splitlines ex_pci_ids_blank)"
  by code_simp

text \<open>
  C5. For every database text, vendor identifier and device identifier the lookup compares
  identifiers without regard to case and returns the vendor name, a space and the device
  name exactly when a vendor line for the vendor is followed, before the next unindented
  line, by a device line for the device; it returns \<open>None\<close> when the database file does not
  exist, when no vendor line matches, and when the device is not listed under the vendor;
  blank lines and comment lines are skipped.

  The code does so on the example database. On the same database with a line of one space
  in front it raises \<open>IndexError\<close> instead, for the listed identifiers and for a vendor that
  no line matches: the line is not empty, so it is not skipped, \<open>split\<close> returns the empty
  list for it, and \<open>parts[0]\<close> is read before \<open>len(parts) > 1\<close> is tested. (On every database
  without such a line the lookup does what C5 says: \<open>lookup_pci_name_well_formed\<close>.)
\<close>

theorem lookup_pci_name_blank_line:
  "lookup_pci_name (Some ex_pci_ids) ''10DE'' ''1234'' = Inr (Some ''NVIDIA Corporation Some GPU'') \<and>
   lookup_pci_name (Some ex_pci_ids) ''10de'' ''ffff'' = Inr None \<and>
   lookup_pci_name (Some ex_pci_ids) ''1002'' ''1234'' = Inr None \<and>
   lookup_pci_name None ''10de'' ''1234'' = Inr None \<and>
   py_splitlines ex_pci_ids_blank =
     '' '' # py_splitlines ex_pci_ids \<and>
   py_split1 '' '' = [] \<and>
   lookup_pci_name (Some ex_pci_ids_blank) ''10de'' ''1234'' = Inl IndexError \<and>
   lookup_pci_name (Some ex_pci_ids_blank) ''1002'' ''1234'' = Inl IndexError"
  by code_simp

end
